theory Spec2Isabelle
  imports Main
begin

section \<open>The HTTP server: request bodies, rows and statements\<close>

text \<open>
  A request body as \<open>express.json()\<close> hands it to a handler. Numbers are kept as
  integers: the handlers only test them for truthiness and for their type.
\<close>

text \<open>
  A JavaScript string is a sequence of UTF-16 code units, kept here as numbers;
  \<open>ascii\<close> gives the code units of an ASCII literal.
\<close>

type_synonym jsstring = "nat list"

definition ascii :: "string \<Rightarrow> jsstring" where
  "ascii s = map of_char s"

datatype json =
    JUndefined
  | JNull
  | JBool bool
  | JNum int
  | JStr jsstring
  | JArr "json list"
  | JObj "(string \<times> json) list"

text \<open>
  \<open>const { a, b } = req.body ?? {}\<close>: reading a property of a parsed value. The
  property names are compared with ASCII literals only and are kept as such.
\<close>

fun field_of :: "json \<Rightarrow> string \<Rightarrow> json" where
  "field_of (JObj kvs) k = (case map_of kvs k of None \<Rightarrow> JUndefined | Some v \<Rightarrow> v)"
| "field_of _ k = JUndefined"

definition nullish :: "json \<Rightarrow> bool" where
  "nullish v = (v = JUndefined \<or> v = JNull)"

text \<open>The operator \<open>??\<close>.\<close>

definition coalesce :: "json \<Rightarrow> json \<Rightarrow> json" where
  "coalesce v d = (if nullish v then d else v)"

text \<open>JavaScript truthiness, as \<open>!name\<close> reads it.\<close>

fun truthy :: "json \<Rightarrow> bool" where
  "truthy JUndefined = False"
| "truthy JNull = False"
| "truthy (JBool b) = b"
| "truthy (JNum n) = (n \<noteq> 0)"
| "truthy (JStr s) = (s \<noteq> [])"
| "truthy (JArr _) = True"
| "truthy (JObj _) = True"

fun is_string :: "json \<Rightarrow> bool" where
  "is_string (JStr _) = True"
| "is_string _ = False"

fun isArray :: "json \<Rightarrow> bool" where
  "isArray (JArr _) = True"
| "isArray _ = False"

fun elements :: "json \<Rightarrow> json list" where
  "elements (JArr xs) = xs"
| "elements _ = []"

text \<open>
  \<open>String.prototype.trim\<close> removes the white space and the line terminators of the
  language from both ends: tab, line feed, vertical tab, form feed, carriage return,
  space, no-break space (U+00A0), U+1680, U+2000 to U+200A, the line and paragraph
  separators (U+2028, U+2029), U+202F, U+205F, U+3000 and the byte order mark (U+FEFF).
\<close>

definition is_ws :: "nat \<Rightarrow> bool" where
  "is_ws c = (c \<in> set [0x09, 0x0A, 0x0B, 0x0C, 0x0D, 0x20, 0xA0, 0x1680, 0x2028, 0x2029,
                         0x202F, 0x205F, 0x3000, 0xFEFF]
      \<or> (0x2000 \<le> c \<and> c \<le> 0x200A))"

definition trim :: "jsstring \<Rightarrow> jsstring" where
  "trim s = rev (dropWhile is_ws (rev (dropWhile is_ws s)))"

datatype js_error = TypeError | DbError

text \<open>
  \<open>project.id\<close> in the inserts of a restore: reading a property of \<open>null\<close> or
  \<open>undefined\<close> throws, of any other value without that property it is \<open>undefined\<close>.
\<close>

fun read_member :: "json \<Rightarrow> string \<Rightarrow> js_error + json" where
  "read_member JUndefined k = Inl TypeError"
| "read_member JNull k = Inl TypeError"
| "read_member v k = Inr (field_of v k)"

subsection \<open>Rows and their mapping\<close>

datatype count_val = CountUndefined | CountNull | CountNum int | CountStr jsstring

record ProjectRow =
  row_id :: jsstring
  row_name :: jsstring
  row_description :: "jsstring option"
  created_at :: jsstring
  updated_at :: jsstring
  model_count :: count_val
  modelCount_col :: count_val

text \<open>The \<open>ProjectSummary\<close> of the server, the body of its answers.\<close>

record ProjectSummary_json =
  j_id :: jsstring
  j_name :: jsstring
  j_description :: "jsstring option"
  j_createdAt :: jsstring
  j_updatedAt :: jsstring
  j_modelCount :: int

text \<open>
  \<open>parseCount\<close>. Its \<open>parseInt\<close> is \<open>Number.parseInt(value, 10)\<close> of the engine,
  \<open>None\<close> being \<open>NaN\<close>: the language leaves its result on long digit strings to
  the engine, so it is a parameter here.
\<close>

fun parseCount :: "(jsstring \<Rightarrow> int option) \<Rightarrow> count_val \<Rightarrow> int" where
  "parseCount parseInt (CountNum n) = n"
| "parseCount parseInt (CountStr s) = (case parseInt s of None \<Rightarrow> 0 | Some n \<Rightarrow> n)"
| "parseCount parseInt _ = 0"

definition mapProjectRow :: "(jsstring \<Rightarrow> int option) \<Rightarrow> ProjectRow \<Rightarrow> ProjectSummary_json" where
  "mapProjectRow parseInt row = \<lparr>
     j_id = row_id row,
     j_name = row_name row,
     j_description = row_description row,
     j_createdAt = created_at row,
     j_updatedAt = updated_at row,
     j_modelCount = parseCount parseInt
       (if model_count row = CountUndefined \<or> model_count row = CountNull
        then modelCount_col row else model_count row) \<rparr>"

subsection \<open>Statements and responses\<close>

text \<open>
  The statements the two handlers send, with their parameters in the order of the
  placeholders.
\<close>

datatype sql =
    InsertProjectReturning jsstring jsstring json
  | Begin
  | DeleteModels
  | DeleteProjects
  | InsertProject json json json json json
  | InsertModel json json json json json json json
  | Commit
  | Rollback

datatype reply =
    ErrorReply string
  | ProjectReply ProjectSummary_json
  | RestoreReply nat nat

record response =
  status :: nat
  payload :: reply

subsection \<open>\<open>POST /api/projects\<close>\<close>

text \<open>
  \<open>parseInt\<close> is the engine's, as above. \<open>query\<close> is \<open>pool.query\<close>: it rejects (\<open>Inl\<close>) or resolves with the rows of the
  \<open>RETURNING\<close> clause. \<open>uuid\<close> is what \<open>createUuid()\<close> returned. A rejected query and
  a result without rows (reading \<open>rows[0].id\<close> throws) both reach the final error
  middleware, which answers 500. The second component is the list of statements sent.
\<close>

definition post_projects ::
  "(jsstring \<Rightarrow> int option) \<Rightarrow> (sql \<Rightarrow> js_error + ProjectRow list) \<Rightarrow> jsstring \<Rightarrow> json
     \<Rightarrow> response \<times> sql list" where
  "post_projects parseInt query uuid req_body =
     (let b = coalesce req_body (JObj []);
          name = field_of b ''name'';
          description = field_of b ''description''
      in if \<not> truthy name \<or> \<not> is_string name
         then (\<lparr>status = 400, payload = ErrorReply ''Project name is required.''\<rparr>, [])
         else
           (case name of
              JStr s \<Rightarrow>
                (let q = InsertProjectReturning uuid (trim s) (coalesce description JNull)
                 in case query q of
                      Inl e \<Rightarrow>
                        (\<lparr>status = 500, payload = ErrorReply ''Internal server error.''\<rparr>, [q])
                    | Inr [] \<Rightarrow>
                        (\<lparr>status = 500, payload = ErrorReply ''Internal server error.''\<rparr>, [q])
                    | Inr (row # _) \<Rightarrow>
                        (\<lparr>status = 201, payload = ProjectReply (mapProjectRow parseInt row)\<rparr>, [q]))
            | _ \<Rightarrow> (\<lparr>status = 400, payload = ErrorReply ''Project name is required.''\<rparr>, [])))"

subsection \<open>\<open>POST /api/restore\<close>\<close>

text \<open>
  The client obtained from \<open>pool.connect()\<close>. \<open>committed\<close> is the stored data,
  \<open>txn\<close> the working copy of an open transaction, \<open>calls\<close> the statements the
  client received, in order.
\<close>

record 'd conn =
  committed :: 'd
  txn :: "'d option"
  calls :: "sql list"
  released :: bool

text \<open>
  \<open>client.query\<close>. The data statements are run by \<open>run\<close>, which answers \<open>None\<close>
  when the database rejects the statement (a violated constraint, a malformed value);
  the promise then rejects, which is the \<open>False\<close> of the result. \<open>BEGIN\<close> opens a
  working copy, \<open>COMMIT\<close> stores it, \<open>ROLLBACK\<close> drops it.
\<close>

definition client_query ::
  "(sql \<Rightarrow> 'd \<Rightarrow> 'd option) \<Rightarrow> sql \<Rightarrow> 'd conn \<Rightarrow> bool \<times> 'd conn" where
  "client_query run q c =
     (let c1 = c\<lparr>calls := calls c @ [q]\<rparr>
      in case q of
           Begin \<Rightarrow> (True, c1\<lparr>txn := Some (committed c)\<rparr>)
         | Commit \<Rightarrow>
             (case txn c of
                None \<Rightarrow> (True, c1)
              | Some d \<Rightarrow> (True, c1\<lparr>committed := d, txn := None\<rparr>))
         | Rollback \<Rightarrow> (True, c1\<lparr>txn := None\<rparr>)
         | _ \<Rightarrow>
             (case txn c of
                Some d \<Rightarrow>
                  (case run q d of
                     None \<Rightarrow> (False, c1)
                   | Some d' \<Rightarrow> (True, c1\<lparr>txn := Some d'\<rparr>))
              | None \<Rightarrow>
                  (case run q (committed c) of
                     None \<Rightarrow> (False, c1)
                   | Some d' \<Rightarrow> (True, c1\<lparr>committed := d'\<rparr>))))"

text \<open>
  The parameter lists of the two inserts. \<open>now\<close> is \<open>new Date().toISOString()\<close>;
  the fifth parameter of a model is the value handed to \<open>JSON.stringify\<close>.
\<close>

definition createEmptyModel_json :: json where
  "createEmptyModel_json = JObj [(''systems'', JArr []), (''containers'', JArr []),
     (''components'', JArr []), (''codeElements'', JArr []), (''viewLevel'', JStr (ascii ''system''))]"

definition project_insert :: "jsstring \<Rightarrow> json \<Rightarrow> js_error + sql" where
  "project_insert now project =
     (case read_member project ''id'' of
        Inl e \<Rightarrow> Inl e
      | Inr i \<Rightarrow>
          Inr (InsertProject i
            (field_of project ''name'')
            (coalesce (field_of project ''description'') JNull)
            (coalesce (field_of project ''createdAt'') (JStr now))
            (coalesce (field_of project ''updatedAt'') (JStr now))))"

definition model_insert :: "jsstring \<Rightarrow> json \<Rightarrow> js_error + sql" where
  "model_insert now model =
     (case read_member model ''id'' of
        Inl e \<Rightarrow> Inl e
      | Inr i \<Rightarrow>
          Inr (InsertModel i
            (field_of model ''projectId'')
            (field_of model ''name'')
            (coalesce (field_of model ''description'') JNull)
            (coalesce (field_of model ''model'') createEmptyModel_json)
            (coalesce (field_of model ''createdAt'') (JStr now))
            (coalesce (field_of model ''updatedAt'') (JStr now))))"

text \<open>A \<open>for ... of\<close> loop of awaited queries: it stops where one throws.\<close>

fun insert_each ::
  "(sql \<Rightarrow> 'd \<Rightarrow> 'd option) \<Rightarrow> (json \<Rightarrow> js_error + sql) \<Rightarrow> json list \<Rightarrow> 'd conn
     \<Rightarrow> bool \<times> 'd conn" where
  "insert_each run mk [] c = (True, c)"
| "insert_each run mk (x # xs) c =
     (case mk x of
        Inl e \<Rightarrow> (False, c)
      | Inr q \<Rightarrow>
          (case client_query run q c of
             (False, c1) \<Rightarrow> (False, c1)
           | (True, c1) \<Rightarrow> insert_each run mk xs c1))"

definition and_then ::
  "('d conn \<Rightarrow> bool \<times> 'd conn) \<Rightarrow> ('d conn \<Rightarrow> bool \<times> 'd conn) \<Rightarrow> 'd conn \<Rightarrow> bool \<times> 'd conn" where
  "and_then f g c = (case f c of (False, c1) \<Rightarrow> (False, c1) | (True, c1) \<Rightarrow> g c1)"

text \<open>The body of the \<open>try\<close> block.\<close>

definition restore_try ::
  "(sql \<Rightarrow> 'd \<Rightarrow> 'd option) \<Rightarrow> jsstring \<Rightarrow> json list \<Rightarrow> json list \<Rightarrow> 'd conn \<Rightarrow> bool \<times> 'd conn" where
  "restore_try run now projects models =
     and_then (client_query run Begin)
    (and_then (client_query run DeleteModels)
    (and_then (client_query run DeleteProjects)
    (and_then (insert_each run (project_insert now) projects)
    (and_then (insert_each run (model_insert now) models)
              (client_query run Commit)))))"

text \<open>
  The handler. \<open>client\<close> is \<open>None\<close> when \<open>pool.connect()\<close> rejects. An error thrown
  in the \<open>try\<close> block is rethrown after \<open>ROLLBACK\<close> and answered 500 by the error
  middleware; \<open>finally\<close> releases the client.
\<close>

definition post_restore ::
  "(sql \<Rightarrow> 'd \<Rightarrow> 'd option) \<Rightarrow> jsstring \<Rightarrow> 'd conn option \<Rightarrow> json
     \<Rightarrow> response \<times> 'd conn option" where
  "post_restore run now client req_body =
     (let b = coalesce req_body (JObj []);
          projects = field_of b ''projects'';
          models = field_of b ''models''
      in if \<not> isArray projects \<or> \<not> isArray models
         then (\<lparr>status = 400, payload = ErrorReply ''Invalid backup payload.''\<rparr>, client)
         else
           (case client of
              None \<Rightarrow> (\<lparr>status = 500, payload = ErrorReply ''Internal server error.''\<rparr>, None)
            | Some c \<Rightarrow>
                (case restore_try run now (elements projects) (elements models) c of
                   (True, c1) \<Rightarrow>
                     (\<lparr>status = 200,
                       payload = RestoreReply (length (elements projects)) (length (elements models))\<rparr>,
                      Some (c1\<lparr>released := True\<rparr>))
                 | (False, c1) \<Rightarrow>
                     (\<lparr>status = 500, payload = ErrorReply ''Internal server error.''\<rparr>,
                      Some ((snd (client_query run Rollback c1))\<lparr>released := True\<rparr>)))))"

text \<open>
  The tables \<open>ensureSchema\<close> creates, as far as their constraints go: both have a
  primary key \<open>id\<close>, \<open>name\<close> is \<open>NOT NULL\<close>, and a model references a stored project
  (deleting a project deletes its models). A row keeps the parameters it was inserted with.
\<close>

record tables =
  tbl_projects :: "(json \<times> json \<times> json) list"
  tbl_models :: "(json \<times> json \<times> json \<times> json \<times> json) list"

fun pg_run :: "sql \<Rightarrow> tables \<Rightarrow> tables option" where
  "pg_run DeleteModels t = Some (t\<lparr>tbl_models := []\<rparr>)"
| "pg_run DeleteProjects t = Some (t\<lparr>tbl_projects := [], tbl_models := []\<rparr>)"
| "pg_run (InsertProject i n d ca ua) t =
     (if is_string i \<and> is_string n \<and> i \<notin> fst ` set (tbl_projects t)
      then Some (t\<lparr>tbl_projects := tbl_projects t @ [(i, n, d)]\<rparr>) else None)"
| "pg_run (InsertModel i p n d m ca ua) t =
     (if is_string i \<and> is_string n \<and> i \<notin> fst ` set (tbl_models t)
         \<and> p \<in> fst ` set (tbl_projects t)
      then Some (t\<lparr>tbl_models := tbl_models t @ [(i, p, n, d, m)]\<rparr>) else None)"
| "pg_run (InsertProjectReturning i n d) t =
     (if JStr i \<notin> fst ` set (tbl_projects t)
      then Some (t\<lparr>tbl_projects := tbl_projects t @ [(JStr i, JStr n, d)]\<rparr>) else None)"
| "pg_run _ t = Some t"

subsection \<open>Notions used to state the server's properties\<close>

text \<open>The statements that read or change rows, as opposed to transaction control.\<close>

fun is_data :: "sql \<Rightarrow> bool" where
  "is_data Begin = False"
| "is_data Commit = False"
| "is_data Rollback = False"
| "is_data _ = True"

text \<open>Running statements one after the other on the data; \<open>None\<close> when one is rejected.\<close>

fun run_all :: "(sql \<Rightarrow> 'd \<Rightarrow> 'd option) \<Rightarrow> sql list \<Rightarrow> 'd \<Rightarrow> 'd option" where
  "run_all run [] d = Some d"
| "run_all run (q # qs) d = (case run q d of None \<Rightarrow> None | Some d' \<Rightarrow> run_all run qs d')"

fun collect :: "(js_error + sql) list \<Rightarrow> sql list option" where
  "collect [] = Some []"
| "collect (Inl e # xs) = None"
| "collect (Inr q # xs) = map_option ((#) q) (collect xs)"

text \<open>
  The inserts of a restore, one per project then one per model; \<open>None\<close> when building
  one of them throws.
\<close>

definition restore_inserts :: "jsstring \<Rightarrow> json list \<Rightarrow> json list \<Rightarrow> sql list option" where
  "restore_inserts now ps ms =
     collect (map (project_insert now) ps @ map (model_insert now) ms)"

text \<open>The two arrays of a restore request, when both fields are arrays.\<close>

definition restore_request_arrays :: "json \<Rightarrow> (json list \<times> json list) option" where
  "restore_request_arrays req_body =
     (let b = coalesce req_body (JObj []) in
      case (field_of b ''projects'', field_of b ''models'') of
        (JArr ps, JArr ms) \<Rightarrow> Some (ps, ms)
      | _ \<Rightarrow> None)"

text \<open>
  The row that \<open>RETURNING id, name, description, created_at, updated_at\<close> yields for
  a project stored at time \<open>now\<close>: five columns, no count.
\<close>

definition returned_row :: "jsstring \<Rightarrow> jsstring \<Rightarrow> jsstring option \<Rightarrow> jsstring \<Rightarrow> ProjectRow" where
  "returned_row i n d now = \<lparr>row_id = i, row_name = n, row_description = d,
     created_at = now, updated_at = now,
     model_count = CountUndefined, modelCount_col = CountUndefined\<rparr>"

text \<open>A database that accepts every project insert (a text or null description).\<close>

definition accepting_query :: "jsstring \<Rightarrow> sql \<Rightarrow> js_error + ProjectRow list" where
  "accepting_query now q =
     (case q of
        InsertProjectReturning i n d \<Rightarrow>
          Inr [returned_row i n (case d of JStr s \<Rightarrow> Some s | _ \<Rightarrow> None) now]
      | _ \<Rightarrow> Inl DbError)"

text \<open>
  The condition of the interface table, \<open>400 if name missing/blank\<close>: no name, or a
  name that is empty or white space only.
\<close>

definition spec_name_missing_or_blank :: "json \<Rightarrow> bool" where
  "spec_name_missing_or_blank name =
     (case name of JUndefined \<Rightarrow> True | JNull \<Rightarrow> True | JStr s \<Rightarrow> trim s = [] | _ \<Rightarrow> False)"

text \<open>Sample data: a client on a database holding one project, and three backups.\<close>

definition stored0 :: "tables conn" where
  "stored0 = \<lparr>committed = \<lparr>tbl_projects = [(JStr (ascii ''old''), JStr (ascii ''Old''), JNull)], tbl_models = []\<rparr>,
     txn = None, calls = [], released = False\<rparr>"

definition backup_ok :: json where
  "backup_ok = JObj [
     (''projects'', JArr [JObj [(''id'', JStr (ascii ''p1'')), (''name'', JStr (ascii ''Core''))]]),
     (''models'', JArr [JObj [(''id'', JStr (ascii ''m1'')), (''projectId'', JStr (ascii ''p1'')),
        (''name'', JStr (ascii ''System View''))]])]"

definition backup_dup :: json where
  "backup_dup = JObj [
     (''projects'', JArr [JObj [(''id'', JStr (ascii ''p1'')), (''name'', JStr (ascii ''Core''))],
                        JObj [(''id'', JStr (ascii ''p1'')), (''name'', JStr (ascii ''Again''))]]),
     (''models'', JArr [])]"

text \<open>
  A stand-in for the engine's \<open>parseInt\<close> where no count is ever parsed, and sample
  values of a request: an identifier, a clock reading, and a name with a no-break space
  in front and a space and a line separator behind.
\<close>

definition no_count :: "jsstring \<Rightarrow> int option" where
  "no_count s = None"

definition sample_uuid :: jsstring where
  "sample_uuid = ascii ''u-1''"

definition sample_now :: jsstring where
  "sample_now = ascii ''2026-01-01''"

definition padded_name :: jsstring where
  "padded_name = [0xA0] @ ascii ''Core'' @ [0x20, 0x2028]"

section \<open>The active-selection and synchronisation controller\<close>

subsection \<open>Data\<close>

datatype ViewLevel = SystemLevel | ContainerLevel | ComponentLevel | CodeLevel

text \<open>The listing records of \<open>types/projects.ts\<close>.\<close>

record ProjectSummary =
  p_id :: string
  p_name :: string
  p_description :: "string option"
  p_createdAt :: string
  p_updatedAt :: string
  modelCount :: int


text \<open>The diagram payload; a block is kept by its identifier.\<close>

record FlatC4Model =
  systems :: "string list"
  containers :: "string list"
  components :: "string list"
  codeElements :: "string list"
  viewLevel :: ViewLevel
  activeSystemId :: "string option"
  activeContainerId :: "string option"
  activeComponentId :: "string option"

definition createEmptyModel :: FlatC4Model where
  "createEmptyModel = \<lparr>systems = [], containers = [], components = [], codeElements = [],
     viewLevel = SystemLevel, activeSystemId = None, activeContainerId = None,
     activeComponentId = None\<rparr>"

record ModelSummary =
  m_id :: string
  m_projectId :: string
  m_name :: string
  m_description :: "string option"
  m_createdAt :: string
  m_updatedAt :: string
  m_model :: "FlatC4Model option"

record entity_payload =
  pl_name :: string
  pl_description :: "string option"

datatype SaveStatus = Idle | Saving | Error

text \<open>The requests of \<open>api.ts\<close> that the controller issues.\<close>

datatype api_call =
    FetchProjects
  | FetchModels string
  | FetchModel string
  | UpdateModel string FlatC4Model
  | UpdateModelMeta string entity_payload
  | CreateProject entity_payload
  | UpdateProject string entity_payload
  | DeleteProject string
  | CreateModel string entity_payload
  | DeleteModel string

text \<open>
  What follows \<open>await saveCurrentModel()\<close> in its caller: nothing (a direct call),
  the rest of \<open>selectProject\<close> or the rest of \<open>selectModel\<close>.
\<close>

datatype after_save = Return | SelectProject "string option" | SelectModel "string option"

text \<open>
  A handler suspended at its \<open>await\<close>, with the values it holds: the token of a load,
  the identifier given to a delete, the project identifier that \<open>handleDeleteModel\<close>
  looked up before its request.
\<close>

datatype pending =
    PFetchProjects
  | PFetchModels
  | PFetchModel nat
  | PUpdateModel after_save
  | PCreateProject
  | PUpdateProject
  | PDeleteProject string
  | PCreateModel string
  | PUpdateModelMeta
  | PDeleteModel string "string option"

text \<open>
  How a request settles: rejected with the message \<open>getErrorMessage\<close> extracts, or
  resolved with its value. \<open>Saved\<close> is the resolution of the write of
  \<open>saveModelNow\<close>, with the clock reading \<open>new Date().toISOString()\<close> taken then.
\<close>

datatype outcome =
    Rejected string
  | Projects "ProjectSummary list"
  | Models "ModelSummary list"
  | Project ProjectSummary
  | Model ModelSummary
  | Deleted
  | Saved string

text \<open>A timer of \<open>window.setTimeout\<close>; its callback is \<open>saveModelNow(snapshot)\<close>.\<close>

record timer =
  t_id :: nat
  t_delay :: nat
  t_snapshot :: FlatC4Model

text \<open>
  The values a render closes over and compares as effect dependencies. The two listings
  are compared by reference, which the version counters stand for: every \<open>setProjects\<close>
  and \<open>setModels\<close> installs a new array.
\<close>

record closure =
  r_projects :: "ProjectSummary list"
  r_models :: "ModelSummary list"
  r_projectsVer :: nat
  r_modelsVer :: nat
  r_activeProjectId :: "string option"
  r_activeModelId :: "string option"
  r_isLoadingProjects :: bool
  r_isLoadingModels :: bool

text \<open>
  The provider: its React state, its refs, and what it acts on: the Shared Diagram Store
  (\<open>store\<close>, and whether the provider's listener is subscribed), the timers of the
  window, the two keys of local storage, the requests issued so far, the suspended
  handlers, and the closure of the last render (\<open>None\<close> before the first one).
\<close>

record ctrl =
  projects :: "ProjectSummary list"
  models :: "ModelSummary list"
  projectsVer :: nat
  modelsVer :: nat
  activeProjectId :: "string option"
  activeModelId :: "string option"
  isLoadingProjects :: bool
  isLoadingModels :: bool
  isLoadingModel :: bool
  saveStatus :: SaveStatus
  lastSavedAt :: "string option"
  error :: "string option"
  activeProjectIdRef :: "string option"
  activeModelIdRef :: "string option"
  isHydratingRef :: bool
  saveTimeoutRef :: "nat option"
  loadTokenRef :: nat
  store :: FlatC4Model
  subscribed :: bool
  timers :: "timer list"
  nextTimerId :: nat
  storedProjectId :: "string option"
  storedModelId :: "string option"
  requests :: "api_call list"
  suspended :: "pending list"
  rendered :: "closure option"

text \<open>
  The provider before its first render; the two ids come from local storage. A state
  setter writes the state the next render will see; timer handles are positive and fresh.
\<close>

definition init :: "string option \<Rightarrow> string option \<Rightarrow> FlatC4Model \<Rightarrow> ctrl" where
  "init lp lm m = \<lparr>projects = [], models = [], projectsVer = 0, modelsVer = 0,
     activeProjectId = lp, activeModelId = lm,
     isLoadingProjects = False, isLoadingModels = False, isLoadingModel = False,
     saveStatus = Idle, lastSavedAt = None, error = None,
     activeProjectIdRef = lp, activeModelIdRef = lm,
     isHydratingRef = False, saveTimeoutRef = None, loadTokenRef = 0,
     store = m, subscribed = False, timers = [], nextTimerId = 1,
     storedProjectId = lp, storedModelId = lm,
     requests = [], suspended = [], rendered = None\<rparr>"

text \<open>Truthiness of \<open>string | null\<close> and of a timer handle \<open>number | null\<close>.\<close>

definition truthy_id :: "string option \<Rightarrow> bool" where
  "truthy_id x = (case x of None \<Rightarrow> False | Some s \<Rightarrow> s \<noteq> [])"

definition truthy_handle :: "nat option \<Rightarrow> bool" where
  "truthy_handle h = (case h of None \<Rightarrow> False | Some n \<Rightarrow> n \<noteq> 0)"

definition setProjects :: "ProjectSummary list \<Rightarrow> ctrl \<Rightarrow> ctrl" where
  "setProjects ps s = s\<lparr>projects := ps, projectsVer := Suc (projectsVer s)\<rparr>"

definition setModels :: "ModelSummary list \<Rightarrow> ctrl \<Rightarrow> ctrl" where
  "setModels ms s = s\<lparr>models := ms, modelsVer := Suc (modelsVer s)\<rparr>"

definition clearTimeout :: "nat \<Rightarrow> ctrl \<Rightarrow> ctrl" where
  "clearTimeout h s = s\<lparr>timers := filter (\<lambda>t. t_id t \<noteq> h) (timers s)\<rparr>"

definition setTimeout :: "FlatC4Model \<Rightarrow> nat \<Rightarrow> ctrl \<Rightarrow> nat \<times> ctrl" where
  "setTimeout snapshot delay s =
     (nextTimerId s,
      s\<lparr>timers := timers s @ [\<lparr>t_id = nextTimerId s, t_delay = delay, t_snapshot = snapshot\<rparr>],
        nextTimerId := Suc (nextTimerId s)\<rparr>)"

subsection \<open>The Model Sync Engine\<close>

text \<open>The caller's code after \<open>await saveCurrentModel()\<close>.\<close>

fun resume :: "after_save \<Rightarrow> ctrl \<Rightarrow> ctrl" where
  "resume Return s = s"
| "resume (SelectProject projectId) s =
     setModels [] (s\<lparr>activeProjectId := projectId, activeModelId := None\<rparr>)"
| "resume (SelectModel modelId) s = s\<lparr>activeModelId := modelId\<rparr>"

text \<open>
  \<open>saveModelNow\<close> up to its \<open>await updateModel(...)\<close>. When it returns without a
  request, the awaiting caller continues at once.
\<close>

definition saveModelNow :: "FlatC4Model \<Rightarrow> after_save \<Rightarrow> ctrl \<Rightarrow> ctrl" where
  "saveModelNow modelData k s =
     (case activeModelIdRef s of
        None \<Rightarrow> resume k s
      | Some modelId \<Rightarrow>
          if modelId = [] then resume k s
          else s\<lparr>error := None, saveStatus := Saving,
                 requests := requests s @ [UpdateModel modelId modelData],
                 suspended := suspended s @ [PUpdateModel k]\<rparr>)"

text \<open>\<open>saveModelNow\<close> after the write settled, then the caller.\<close>

definition saveModelNow_settled :: "string + string \<Rightarrow> after_save \<Rightarrow> ctrl \<Rightarrow> ctrl" where
  "saveModelNow_settled r k s =
     resume k
       (case r of
          Inr now \<Rightarrow> s\<lparr>saveStatus := Idle, lastSavedAt := Some now\<rparr>
        | Inl msg \<Rightarrow> s\<lparr>saveStatus := Error, error := Some msg\<rparr>)"

definition queueSave :: "FlatC4Model \<Rightarrow> ctrl \<Rightarrow> ctrl" where
  "queueSave modelData s =
     (if \<not> truthy_id (activeModelIdRef s) then s
      else
        (let s1 = (case saveTimeoutRef s of
                     None \<Rightarrow> s
                   | Some h \<Rightarrow> if h \<noteq> 0 then clearTimeout h s else s);
             (h', s2) = setTimeout modelData 600 s1
         in s2\<lparr>saveTimeoutRef := Some h'\<rparr>))"

text \<open>The listener the provider subscribes to the store.\<close>

definition listener :: "FlatC4Model \<Rightarrow> ctrl \<Rightarrow> ctrl" where
  "listener model s = (if isHydratingRef s then s else queueSave model s)"

text \<open>
  \<open>setModel\<close> of the store: the model is replaced by a new object and the subscribers
  are notified synchronously.
\<close>

definition setModel :: "FlatC4Model \<Rightarrow> ctrl \<Rightarrow> ctrl" where
  "setModel model s =
     (let s1 = s\<lparr>store := model\<rparr>
      in if subscribed s1 then listener model s1 else s1)"

definition saveCurrentModel :: "after_save \<Rightarrow> ctrl \<Rightarrow> ctrl" where
  "saveCurrentModel k s =
     (let s1 = (case saveTimeoutRef s of
                  None \<Rightarrow> s
                | Some h \<Rightarrow>
                    if h \<noteq> 0 then (clearTimeout h s)\<lparr>saveTimeoutRef := None\<rparr> else s)
      in if \<not> truthy_id (activeModelIdRef s1) then resume k s1
         else saveModelNow (store s1) k s1)"

text \<open>\<open>loadModel\<close> up to its \<open>await fetchModel(modelId)\<close>.\<close>

definition loadModel :: "string \<Rightarrow> ctrl \<Rightarrow> ctrl" where
  "loadModel modelId s =
     (let token = loadTokenRef s + 1
      in s\<lparr>loadTokenRef := token, isLoadingModel := True, isHydratingRef := True,
           requests := requests s @ [FetchModel modelId],
           suspended := suspended s @ [PFetchModel token]\<rparr>)"

text \<open>\<open>loadModel\<close> after the fetch settled, with its \<open>finally\<close> block.\<close>

definition loadModel_settled :: "nat \<Rightarrow> string + ModelSummary \<Rightarrow> ctrl \<Rightarrow> ctrl" where
  "loadModel_settled token r s =
     (let s1 = (case r of
                  Inr data \<Rightarrow>
                    if loadTokenRef s \<noteq> token then s
                    else (setModel (case m_model data of None \<Rightarrow> createEmptyModel | Some m \<Rightarrow> m) s)
                           \<lparr>saveStatus := Idle\<rparr>
                | Inl msg \<Rightarrow> s\<lparr>error := Some msg\<rparr>)
      in if loadTokenRef s1 = token
         then s1\<lparr>isHydratingRef := False, isLoadingModel := False\<rparr>
         else s1)"

subsection \<open>The Active Selection Controller\<close>

definition refreshProjects :: "ctrl \<Rightarrow> ctrl" where
  "refreshProjects s =
     s\<lparr>isLoadingProjects := True, error := None,
       requests := requests s @ [FetchProjects],
       suspended := suspended s @ [PFetchProjects]\<rparr>"

definition refreshProjects_settled :: "string + ProjectSummary list \<Rightarrow> ctrl \<Rightarrow> ctrl" where
  "refreshProjects_settled r s =
     (case r of
        Inr data \<Rightarrow> setProjects data s
      | Inl msg \<Rightarrow> s\<lparr>error := Some msg\<rparr>)\<lparr>isLoadingProjects := False\<rparr>"

definition refreshModels :: "string option \<Rightarrow> ctrl \<Rightarrow> ctrl" where
  "refreshModels projectId s =
     (let i = (case projectId of None \<Rightarrow> activeProjectIdRef s | Some p \<Rightarrow> Some p)
      in case i of
           None \<Rightarrow> (setModels [] s)\<lparr>isLoadingModels := False\<rparr>
         | Some p \<Rightarrow>
             if p = [] then (setModels [] s)\<lparr>isLoadingModels := False\<rparr>
             else s\<lparr>isLoadingModels := True, error := None,
                    requests := requests s @ [FetchModels p],
                    suspended := suspended s @ [PFetchModels]\<rparr>)"

definition refreshModels_settled :: "string + ModelSummary list \<Rightarrow> ctrl \<Rightarrow> ctrl" where
  "refreshModels_settled r s =
     (case r of
        Inr data \<Rightarrow> setModels data s
      | Inl msg \<Rightarrow> s\<lparr>error := Some msg\<rparr>)\<lparr>isLoadingModels := False\<rparr>"

definition selectProject :: "string option \<Rightarrow> ctrl \<Rightarrow> ctrl" where
  "selectProject projectId s =
     (if projectId = activeProjectIdRef s then s
      else saveCurrentModel (SelectProject projectId) s)"

definition selectModel :: "string option \<Rightarrow> ctrl \<Rightarrow> ctrl" where
  "selectModel modelId s =
     (if modelId = activeModelIdRef s then s
      else saveCurrentModel (SelectModel modelId) s)"

definition handleCreateProject :: "entity_payload \<Rightarrow> ctrl \<Rightarrow> ctrl" where
  "handleCreateProject pl s =
     s\<lparr>error := None, requests := requests s @ [CreateProject pl],
       suspended := suspended s @ [PCreateProject]\<rparr>"

definition handleCreateProject_settled :: "string + ProjectSummary \<Rightarrow> ctrl \<Rightarrow> ctrl" where
  "handleCreateProject_settled r s =
     (case r of
        Inr project \<Rightarrow>
          (setProjects (project # projects s) s)
            \<lparr>activeProjectId := Some (p_id project), activeModelId := None\<rparr>
      | Inl msg \<Rightarrow> s\<lparr>error := Some msg\<rparr>)"

definition handleUpdateProject :: "string \<Rightarrow> entity_payload \<Rightarrow> ctrl \<Rightarrow> ctrl" where
  "handleUpdateProject projectId pl s =
     s\<lparr>error := None, requests := requests s @ [UpdateProject projectId pl],
       suspended := suspended s @ [PUpdateProject]\<rparr>"

definition handleUpdateProject_settled :: "string + ProjectSummary \<Rightarrow> ctrl \<Rightarrow> ctrl" where
  "handleUpdateProject_settled r s =
     (case r of
        Inr project \<Rightarrow>
          setProjects
            (map (\<lambda>item. if p_id item = p_id project then project else item) (projects s)) s
      | Inl msg \<Rightarrow> s\<lparr>error := Some msg\<rparr>)"

definition handleDeleteProject :: "string \<Rightarrow> ctrl \<Rightarrow> ctrl" where
  "handleDeleteProject projectId s =
     s\<lparr>error := None, requests := requests s @ [DeleteProject projectId],
       suspended := suspended s @ [PDeleteProject projectId]\<rparr>"

definition handleDeleteProject_settled :: "string \<Rightarrow> string + unit \<Rightarrow> ctrl \<Rightarrow> ctrl" where
  "handleDeleteProject_settled projectId r s =
     (case r of
        Inr _ \<Rightarrow>
          (let s1 = setProjects (filter (\<lambda>item. p_id item \<noteq> projectId) (projects s)) s
           in if activeProjectIdRef s1 = Some projectId
              then setModel createEmptyModel
                     (setModels [] (s1\<lparr>activeProjectId := None, activeModelId := None\<rparr>))
              else s1)
      | Inl msg \<Rightarrow> s\<lparr>error := Some msg\<rparr>)"

definition handleCreateModel :: "string \<Rightarrow> entity_payload \<Rightarrow> ctrl \<Rightarrow> ctrl" where
  "handleCreateModel projectId pl s =
     s\<lparr>error := None, requests := requests s @ [CreateModel projectId pl],
       suspended := suspended s @ [PCreateModel projectId]\<rparr>"

definition handleCreateModel_settled :: "string \<Rightarrow> string + ModelSummary \<Rightarrow> ctrl \<Rightarrow> ctrl" where
  "handleCreateModel_settled projectId r s =
     (case r of
        Inr model \<Rightarrow>
          (setProjects
             (map (\<lambda>item. if p_id item = projectId
                     then item\<lparr>modelCount := modelCount item + 1\<rparr> else item) (projects s))
             (setModels (model # models s) s))
            \<lparr>activeProjectId := Some projectId, activeModelId := Some (m_id model)\<rparr>
      | Inl msg \<Rightarrow> s\<lparr>error := Some msg\<rparr>)"

definition handleUpdateModel :: "string \<Rightarrow> entity_payload \<Rightarrow> ctrl \<Rightarrow> ctrl" where
  "handleUpdateModel modelId pl s =
     s\<lparr>error := None, requests := requests s @ [UpdateModelMeta modelId pl],
       suspended := suspended s @ [PUpdateModelMeta]\<rparr>"

definition handleUpdateModel_settled :: "string + ModelSummary \<Rightarrow> ctrl \<Rightarrow> ctrl" where
  "handleUpdateModel_settled r s =
     (case r of
        Inr model \<Rightarrow>
          setModels (map (\<lambda>item. if m_id item = m_id model then model else item) (models s)) s
      | Inl msg \<Rightarrow> s\<lparr>error := Some msg\<rparr>)"

text \<open>
  \<open>handleDeleteModel\<close> reads \<open>models\<close> from the render that created it, before its
  request; the updater of \<open>setModels\<close> reads the listing current when it settles.
\<close>

definition handleDeleteModel :: "string \<Rightarrow> ctrl \<Rightarrow> ctrl" where
  "handleDeleteModel modelId s =
     (let listing = (case rendered s of None \<Rightarrow> models s | Some c \<Rightarrow> r_models c);
          projectId = map_option m_projectId (find (\<lambda>item. m_id item = modelId) listing)
      in s\<lparr>error := None, requests := requests s @ [DeleteModel modelId],
           suspended := suspended s @ [PDeleteModel modelId projectId]\<rparr>)"

definition handleDeleteModel_settled ::
  "string \<Rightarrow> string option \<Rightarrow> string + unit \<Rightarrow> ctrl \<Rightarrow> ctrl" where
  "handleDeleteModel_settled modelId projectId r s =
     (case r of
        Inr _ \<Rightarrow>
          (let s1 = setModels (filter (\<lambda>item. m_id item \<noteq> modelId) (models s)) s;
               s2 = (if truthy_id projectId
                     then setProjects
                            (map (\<lambda>item. if Some (p_id item) = projectId
                                    then item\<lparr>modelCount := max 0 (modelCount item - 1)\<rparr>
                                    else item) (projects s1)) s1
                     else s1)
           in if activeModelIdRef s2 = Some modelId
              then setModel createEmptyModel (s2\<lparr>activeModelId := None\<rparr>)
              else s2)
      | Inl msg \<Rightarrow> s\<lparr>error := Some msg\<rparr>)"

subsection \<open>Effects and rendering\<close>

definition closure_of :: "ctrl \<Rightarrow> closure" where
  "closure_of s = \<lparr>r_projects = projects s, r_models = models s,
     r_projectsVer = projectsVer s, r_modelsVer = modelsVer s,
     r_activeProjectId = activeProjectId s, r_activeModelId = activeModelId s,
     r_isLoadingProjects = isLoadingProjects s, r_isLoadingModels = isLoadingModels s\<rparr>"

text \<open>The effects of the provider, in the order of the source; \<open>c\<close> is the render's closure.\<close>

definition sync_project_ref :: "closure \<Rightarrow> ctrl \<Rightarrow> ctrl" where
  "sync_project_ref c s = s\<lparr>activeProjectIdRef := r_activeProjectId c\<rparr>"

definition sync_model_ref :: "closure \<Rightarrow> ctrl \<Rightarrow> ctrl" where
  "sync_model_ref c s = s\<lparr>activeModelIdRef := r_activeModelId c\<rparr>"

definition persist_selection :: "closure \<Rightarrow> ctrl \<Rightarrow> ctrl" where
  "persist_selection c s =
     s\<lparr>storedProjectId :=
          (if truthy_id (r_activeProjectId c) then r_activeProjectId c else None),
       storedModelId :=
          (if truthy_id (r_activeModelId c) then r_activeModelId c else None)\<rparr>"

definition reconcile_projects :: "closure \<Rightarrow> ctrl \<Rightarrow> ctrl" where
  "reconcile_projects c s =
     (if r_isLoadingProjects c then s
      else
        (case r_projects c of
           [] \<Rightarrow> setModel createEmptyModel (s\<lparr>activeProjectId := None, activeModelId := None\<rparr>)
         | first # _ \<Rightarrow>
             if \<not> truthy_id (activeProjectIdRef s)
             then s\<lparr>activeProjectId := Some (p_id first)\<rparr>
             else if find (\<lambda>item. Some (p_id item) = activeProjectIdRef s) (r_projects c) = None
             then s\<lparr>activeProjectId := Some (p_id first)\<rparr>
             else s))"

definition fetch_models_effect :: "closure \<Rightarrow> ctrl \<Rightarrow> ctrl" where
  "fetch_models_effect c s =
     (if \<not> truthy_id (r_activeProjectId c)
      then setModel createEmptyModel ((setModels [] s)\<lparr>activeModelId := None\<rparr>)
      else refreshModels (r_activeProjectId c) s)"

definition reconcile_models :: "closure \<Rightarrow> ctrl \<Rightarrow> ctrl" where
  "reconcile_models c s =
     (if r_isLoadingModels c \<or> \<not> truthy_id (r_activeProjectId c) then s
      else
        (case r_models c of
           [] \<Rightarrow> setModel createEmptyModel (s\<lparr>activeModelId := None\<rparr>)
         | first # _ \<Rightarrow>
             if \<not> truthy_id (activeModelIdRef s)
             then s\<lparr>activeModelId := Some (m_id first)\<rparr>
             else if find (\<lambda>item. Some (m_id item) = activeModelIdRef s) (r_models c) = None
             then s\<lparr>activeModelId := Some (m_id first)\<rparr>
             else s))"

definition load_effect :: "closure \<Rightarrow> ctrl \<Rightarrow> ctrl" where
  "load_effect c s =
     (case r_activeModelId c of
        None \<Rightarrow> s
      | Some modelId \<Rightarrow> if modelId = [] then s else loadModel modelId s)"

definition idle_effect :: "closure \<Rightarrow> ctrl \<Rightarrow> ctrl" where
  "idle_effect c s = (if \<not> truthy_id (r_activeModelId c) then s\<lparr>saveStatus := Idle\<rparr> else s)"

definition subscribe_effect :: "closure \<Rightarrow> ctrl \<Rightarrow> ctrl" where
  "subscribe_effect c s = (if \<not> truthy_id (r_activeModelId c) then s else s\<lparr>subscribed := True\<rparr>)"

text \<open>The cleanup the subscribing effect returns.\<close>

definition subscribe_cleanup :: "ctrl \<Rightarrow> ctrl" where
  "subscribe_cleanup s =
     (case saveTimeoutRef s of
        None \<Rightarrow> s
      | Some h \<Rightarrow> if h \<noteq> 0 then (clearTimeout h s)\<lparr>saveTimeoutRef := None\<rparr> else s)
     \<lparr>subscribed := False\<rparr>"

text \<open>A dependency differs from the previous render, or there was none.\<close>

definition changed :: "closure option \<Rightarrow> closure \<Rightarrow> (closure \<Rightarrow> 'a) \<Rightarrow> bool" where
  "changed old c f = (case old of None \<Rightarrow> True | Some prev \<Rightarrow> f prev \<noteq> f c)"

text \<open>Each effect with the test of its dependency list.\<close>

definition effects :: "closure option \<Rightarrow> closure \<Rightarrow> (bool \<times> (ctrl \<Rightarrow> ctrl)) list" where
  "effects old c =
     [(changed old c r_activeProjectId, sync_project_ref c),
      (changed old c r_activeModelId, sync_model_ref c),
      (changed old c r_activeProjectId \<or> changed old c r_activeModelId, persist_selection c),
      (old = None, refreshProjects),
      (changed old c r_projectsVer \<or> changed old c r_isLoadingProjects, reconcile_projects c),
      (changed old c r_activeProjectId, fetch_models_effect c),
      (changed old c r_modelsVer \<or> changed old c r_isLoadingModels
         \<or> changed old c r_activeProjectId, reconcile_models c),
      (changed old c r_activeModelId, load_effect c),
      (changed old c r_activeModelId, idle_effect c),
      (changed old c r_activeModelId, subscribe_effect c)]"

definition run_effects :: "(bool \<times> (ctrl \<Rightarrow> ctrl)) list \<Rightarrow> ctrl \<Rightarrow> ctrl" where
  "run_effects fs s = fold (\<lambda>(b, f) s. if b then f s else s) fs s"

text \<open>
  One commit: the component is rendered with the current state, the cleanup of the
  subscribing effect runs when its dependency changed and it had subscribed, then the
  effects whose dependencies changed run in order. State set by an effect is seen by the
  next render only.
\<close>

definition render :: "ctrl \<Rightarrow> ctrl" where
  "render s =
     (let c = closure_of s;
          old = rendered s;
          s0 = (case old of
                  None \<Rightarrow> s
                | Some prev \<Rightarrow>
                    if r_activeModelId prev \<noteq> r_activeModelId c \<and> truthy_id (r_activeModelId prev)
                    then subscribe_cleanup s else s)
      in (run_effects (effects old c) s0)\<lparr>rendered := Some c\<rparr>)"

subsection \<open>The event loop\<close>

datatype event =
    Render
  | Call_refreshProjects
  | Call_refreshModels "string option"
  | Call_selectProject "string option"
  | Call_selectModel "string option"
  | Call_createProject entity_payload
  | Call_updateProject string entity_payload
  | Call_deleteProject string
  | Call_createModel string entity_payload
  | Call_updateModel string entity_payload
  | Call_deleteModel string
  | Call_saveCurrentModel
  | Edit FlatC4Model
  | TimerFires nat
  | Settle nat outcome

text \<open>The continuation of a suspended handler; \<open>None\<close> when the value is not one its request yields.\<close>

definition settle :: "pending \<Rightarrow> outcome \<Rightarrow> ctrl \<Rightarrow> ctrl option" where
  "settle p r s =
     (case p of
        PFetchProjects \<Rightarrow>
          (case r of Rejected msg \<Rightarrow> Some (refreshProjects_settled (Inl msg) s)
                   | Projects data \<Rightarrow> Some (refreshProjects_settled (Inr data) s)
                   | _ \<Rightarrow> None)
      | PFetchModels \<Rightarrow>
          (case r of Rejected msg \<Rightarrow> Some (refreshModels_settled (Inl msg) s)
                   | Models data \<Rightarrow> Some (refreshModels_settled (Inr data) s)
                   | _ \<Rightarrow> None)
      | PFetchModel token \<Rightarrow>
          (case r of Rejected msg \<Rightarrow> Some (loadModel_settled token (Inl msg) s)
                   | Model data \<Rightarrow> Some (loadModel_settled token (Inr data) s)
                   | _ \<Rightarrow> None)
      | PUpdateModel k \<Rightarrow>
          (case r of Rejected msg \<Rightarrow> Some (saveModelNow_settled (Inl msg) k s)
                   | Saved now \<Rightarrow> Some (saveModelNow_settled (Inr now) k s)
                   | _ \<Rightarrow> None)
      | PCreateProject \<Rightarrow>
          (case r of Rejected msg \<Rightarrow> Some (handleCreateProject_settled (Inl msg) s)
                   | Project data \<Rightarrow> Some (handleCreateProject_settled (Inr data) s)
                   | _ \<Rightarrow> None)
      | PUpdateProject \<Rightarrow>
          (case r of Rejected msg \<Rightarrow> Some (handleUpdateProject_settled (Inl msg) s)
                   | Project data \<Rightarrow> Some (handleUpdateProject_settled (Inr data) s)
                   | _ \<Rightarrow> None)
      | PDeleteProject projectId \<Rightarrow>
          (case r of Rejected msg \<Rightarrow> Some (handleDeleteProject_settled projectId (Inl msg) s)
                   | Deleted \<Rightarrow> Some (handleDeleteProject_settled projectId (Inr ()) s)
                   | _ \<Rightarrow> None)
      | PCreateModel projectId \<Rightarrow>
          (case r of Rejected msg \<Rightarrow> Some (handleCreateModel_settled projectId (Inl msg) s)
                   | Model data \<Rightarrow> Some (handleCreateModel_settled projectId (Inr data) s)
                   | _ \<Rightarrow> None)
      | PUpdateModelMeta \<Rightarrow>
          (case r of Rejected msg \<Rightarrow> Some (handleUpdateModel_settled (Inl msg) s)
                   | Model data \<Rightarrow> Some (handleUpdateModel_settled (Inr data) s)
                   | _ \<Rightarrow> None)
      | PDeleteModel modelId projectId \<Rightarrow>
          (case r of Rejected msg \<Rightarrow> Some (handleDeleteModel_settled modelId projectId (Inl msg) s)
                   | Deleted \<Rightarrow> Some (handleDeleteModel_settled modelId projectId (Inr ()) s)
                   | _ \<Rightarrow> None))"

text \<open>A pending timer fires: it leaves the window's table and its callback runs.\<close>

definition fire :: "nat \<Rightarrow> ctrl \<Rightarrow> ctrl" where
  "fire h s =
     (case find (\<lambda>t. t_id t = h) (timers s) of
        None \<Rightarrow> s
      | Some t \<Rightarrow> saveModelNow (t_snapshot t) Return (clearTimeout h s))"

text \<open>A call of one of the operations the context hands out with a render.\<close>

definition called :: "(ctrl \<Rightarrow> ctrl) \<Rightarrow> ctrl \<Rightarrow> ctrl" where
  "called f s = (if rendered s = None then s else f s)"

text \<open>
  One task of the single-threaded event loop: a render, a call by the user interface,
  an edit of the store by the editing layer, a timer, or the settling of the \<open>i\<close>-th
  suspended request. Between two awaits a handler runs without interruption. The
  provider stays mounted, and every effect runs once per commit.
\<close>

fun step :: "event \<Rightarrow> ctrl \<Rightarrow> ctrl" where
  "step Render s = render s"
| "step Call_refreshProjects s = called refreshProjects s"
| "step (Call_refreshModels projectId) s = called (refreshModels projectId) s"
| "step (Call_selectProject projectId) s = called (selectProject projectId) s"
| "step (Call_selectModel modelId) s = called (selectModel modelId) s"
| "step (Call_createProject pl) s = called (handleCreateProject pl) s"
| "step (Call_updateProject projectId pl) s = called (handleUpdateProject projectId pl) s"
| "step (Call_deleteProject projectId) s = called (handleDeleteProject projectId) s"
| "step (Call_createModel projectId pl) s = called (handleCreateModel projectId pl) s"
| "step (Call_updateModel modelId pl) s = called (handleUpdateModel modelId pl) s"
| "step (Call_deleteModel modelId) s = called (handleDeleteModel modelId) s"
| "step Call_saveCurrentModel s = called (saveCurrentModel Return) s"
| "step (Edit model) s = setModel model s"
| "step (TimerFires h) s = fire h s"
| "step (Settle i r) s =
     (if i < length (suspended s)
      then (case settle (suspended s ! i) r
                   (s\<lparr>suspended := take i (suspended s) @ drop (Suc i) (suspended s)\<rparr>) of
              None \<Rightarrow> s
            | Some s' \<Rightarrow> s')
      else s)"

text \<open>The states the provider can be in.\<close>

inductive reachable :: "ctrl \<Rightarrow> bool" where
  reach_init: "reachable (init lp lm m)"
| reach_step: "reachable s \<Longrightarrow> reachable (step e s)"

definition run_events :: "event list \<Rightarrow> ctrl \<Rightarrow> ctrl" where
  "run_events es s = fold step es s"

subsection \<open>Notions used to state the controller's properties\<close>

text \<open>What a load writes into the store: \<open>data.model ?? createEmptyModel()\<close>.\<close>

definition model_or_empty :: "ModelSummary \<Rightarrow> FlatC4Model" where
  "model_or_empty data = (case m_model data of None \<Rightarrow> createEmptyModel | Some m \<Rightarrow> m)"

text \<open>Every pending timer is the one whose handle \<open>saveTimeoutRef\<close> holds.\<close>

definition timers_tracked :: "ctrl \<Rightarrow> bool" where
  "timers_tracked s = list_all (\<lambda>t. saveTimeoutRef s = Some (t_id t) \<and> t_id t \<noteq> 0) (timers s)"

text \<open>
  The cached count of a project equals the number of cached models that belong to it;
  \<open>counts_consistent\<close> asks this of every cached project.
\<close>

definition count_ok :: "ModelSummary list \<Rightarrow> ProjectSummary \<Rightarrow> bool" where
  "count_ok ms p = (modelCount p = int (length (filter (\<lambda>m. m_projectId m = p_id p) ms)))"

definition counts_consistent :: "ctrl \<Rightarrow> bool" where
  "counts_consistent s = list_all (count_ok (models s)) (projects s)"

text \<open>The tokens of the loads in flight.\<close>

fun load_tokens :: "pending list \<Rightarrow> nat list" where
  "load_tokens [] = []"
| "load_tokens (PFetchModel t # ps) = t # load_tokens ps"
| "load_tokens (p # ps) = load_tokens ps"

text \<open>
  The invariant of the Model Sync Engine. At most one timer is pending; it is the one
  \<open>saveTimeoutRef\<close> holds, it waits 600 ms and carries the current content of the
  store; a timer is pending only while a model is active, the listener is subscribed and
  no load is hydrating the store. The loads in flight have distinct tokens, none above the
  last one issued, and the hydration guard is up while the last load is in flight.
\<close>

definition timer_ok :: "ctrl \<Rightarrow> timer \<Rightarrow> bool" where
  "timer_ok s t = (saveTimeoutRef s = Some (t_id t) \<and> t_id t \<noteq> 0 \<and> t_delay t = 600
     \<and> t_snapshot t = store s)"

definition sync_inv :: "ctrl \<Rightarrow> bool" where
  "sync_inv s =
     (length (timers s) \<le> 1
      \<and> list_all (timer_ok s) (timers s)
      \<and> nextTimerId s \<noteq> 0
      \<and> (timers s \<noteq> [] \<longrightarrow>
            truthy_id (activeModelIdRef s) \<and> \<not> isHydratingRef s \<and> subscribed s)
      \<and> distinct (load_tokens (suspended s))
      \<and> list_all (\<lambda>t. t \<le> loadTokenRef s) (load_tokens (suspended s))
      \<and> (loadTokenRef s \<in> set (load_tokens (suspended s)) \<longrightarrow> isHydratingRef s))"

text \<open>
  After a render the model ref holds the id that render saw, and the listener is
  subscribed exactly when that id is truthy.
\<close>

definition render_inv :: "ctrl \<Rightarrow> bool" where
  "render_inv s =
     (case rendered s of
        None \<Rightarrow> \<not> subscribed s
      | Some c \<Rightarrow>
          activeModelIdRef s = r_activeModelId c
          \<and> (subscribed s \<longleftrightarrow> truthy_id (r_activeModelId c)))"

text \<open>Two states agree on everything the two invariants read.\<close>

definition same_sync :: "ctrl \<Rightarrow> ctrl \<Rightarrow> bool" where
  "same_sync s s' =
     (timers s' = timers s \<and> saveTimeoutRef s' = saveTimeoutRef s
      \<and> nextTimerId s' = nextTimerId s \<and> activeModelIdRef s' = activeModelIdRef s
      \<and> isHydratingRef s' = isHydratingRef s \<and> subscribed s' = subscribed s
      \<and> store s' = store s \<and> load_tokens (suspended s') = load_tokens (suspended s)
      \<and> loadTokenRef s' = loadTokenRef s \<and> rendered s' = rendered s)"

text \<open>An operation that keeps the invariant and leaves the render's view alone.\<close>

definition preserved :: "(ctrl \<Rightarrow> ctrl) \<Rightarrow> bool" where
  "preserved f = (\<forall>s. (sync_inv s \<longrightarrow> sync_inv (f s)) \<and> rendered (f s) = rendered s
     \<and> subscribed (f s) = subscribed s \<and> activeModelIdRef (f s) = activeModelIdRef s)"

text \<open>The invariant in the middle of a commit, with the model ref and the subscription known.\<close>

definition held :: "string option \<Rightarrow> bool \<Rightarrow> ctrl \<Rightarrow> bool" where
  "held x b s = (sync_inv s \<and> activeModelIdRef s = x \<and> subscribed s = b)"

subsection \<open>Sample sessions\<close>

definition project_A :: ProjectSummary where
  "project_A = \<lparr>p_id = ''A'', p_name = ''Core'', p_description = None,
     p_createdAt = ''t0'', p_updatedAt = ''t0'', modelCount = 0\<rparr>"

definition project_B :: ProjectSummary where
  "project_B = \<lparr>p_id = ''B'', p_name = ''Billing'', p_description = None,
     p_createdAt = ''t0'', p_updatedAt = ''t0'', modelCount = 2\<rparr>"

definition model_A1 :: ModelSummary where
  "model_A1 = \<lparr>m_id = ''a1'', m_projectId = ''A'', m_name = ''System View'',
     m_description = None, m_createdAt = ''t1'', m_updatedAt = ''t1'', m_model = None\<rparr>"

definition model_A2 :: ModelSummary where
  "model_A2 = \<lparr>m_id = ''a2'', m_projectId = ''A'', m_name = ''Containers'',
     m_description = None, m_createdAt = ''t2'', m_updatedAt = ''t2'', m_model = None\<rparr>"

definition edited_model :: FlatC4Model where
  "edited_model = createEmptyModel\<lparr>systems := [''billing'']\<rparr>"

definition model_B1 :: ModelSummary where
  "model_B1 = \<lparr>m_id = ''b1'', m_projectId = ''B'', m_name = ''Invoices'',
     m_description = None, m_createdAt = ''t3'', m_updatedAt = ''t3'',
     m_model = Some edited_model\<rparr>"

definition create_pl :: entity_payload where
  "create_pl = \<lparr>pl_name = ''System View'', pl_description = None\<rparr>"

text \<open>
  The provider starts with nothing stored, lists the projects A and B (B has two models
  on the server), makes A active and lists its models, of which there are none.
\<close>

definition opened_A :: "event list" where
  "opened_A = [Render, Settle 0 (Projects [project_A, project_B]), Render, Render,
     Settle 0 (Models []), Render]"

text \<open>Then a model is created in A.\<close>

definition after_create_A :: ctrl where
  "after_create_A = run_events
     (opened_A @ [Call_createModel ''A'' create_pl, Settle 0 (Model model_A1)])
     (init None None createEmptyModel)"

text \<open>
  \<open>createModel\<close> called and its request resolved with the model, \<open>deleteModel\<close>
  called and its request resolved, each with no other event in between.
\<close>

definition created :: "string \<Rightarrow> entity_payload \<Rightarrow> ModelSummary \<Rightarrow> ctrl \<Rightarrow> ctrl" where
  "created projectId pl model s =
     run_events [Call_createModel projectId pl, Settle (length (suspended s)) (Model model)] s"

definition deleted :: "string \<Rightarrow> ctrl \<Rightarrow> ctrl" where
  "deleted modelId s =
     run_events [Call_deleteModel modelId, Settle (length (suspended s)) Deleted] s"

text \<open>The provider has rendered the listing with the new model.\<close>

definition shown_after_create :: ctrl where
  "shown_after_create = run_events [Render] after_create_A"

text \<open>While a refresh of the projects is in flight, the active project A is deleted.\<close>

definition deleted_during_refresh :: ctrl where
  "deleted_during_refresh = run_events
     (opened_A @ [Call_refreshProjects, Render, Call_deleteProject ''A'', Settle 1 Deleted])
     (init None None createEmptyModel)"

text \<open>The project listing has just arrived; the model listing of A has just arrived.\<close>

definition listed_projects :: ctrl where
  "listed_projects = run_events [Render, Settle 0 (Projects [project_A, project_B])]
     (init None None createEmptyModel)"

definition listed_models :: ctrl where
  "listed_models = run_events
     [Render, Settle 0 (Projects [project_A, project_B]), Render, Render,
      Settle 0 (Models [model_A1])]
     (init None None createEmptyModel)"

text \<open>
  Project A with its model a1: the model became active and its load is in flight; then
  the load resolved and the user made one edit.
\<close>

definition loading_A1 :: ctrl where
  "loading_A1 = run_events
     [Render, Settle 0 (Projects [project_A, project_B]), Render, Render,
      Settle 0 (Models [model_A1]), Render, Render]
     (init None None createEmptyModel)"

definition editing_A1 :: ctrl where
  "editing_A1 = run_events [Settle 0 (Model model_A1), Edit edited_model] loading_A1"

text \<open>A state with a pending timer and no active model.\<close>

definition stale_timer_state :: ctrl where
  "stale_timer_state = (init None None createEmptyModel)
     \<lparr>saveTimeoutRef := Some 1,
      timers := [\<lparr>t_id = 1, t_delay = 600, t_snapshot = createEmptyModel\<rparr>],
      nextTimerId := 2, saveStatus := Error, error := Some ''x''\<rparr>"

section \<open>Properties of the server\<close>

subsection \<open>Restore\<close>

lemma run_all_append:
  "run_all run (qs @ rs) d = (case run_all run qs d of None \<Rightarrow> None | Some d' \<Rightarrow> run_all run rs d')"
  by (induction qs arbitrary: d) (auto split: option.splits)

lemma client_query_data:
  assumes "is_data q" "txn c = Some d"
  shows "client_query run q c =
    (case run q d of None \<Rightarrow> (False, c\<lparr>calls := calls c @ [q]\<rparr>)
     | Some d' \<Rightarrow> (True, c\<lparr>calls := calls c @ [q], txn := Some d'\<rparr>))"
  using assms by (cases q) (simp_all add: client_query_def split: option.splits)

lemma insert_each_ok:
  assumes "txn c = Some d" "\<And>x q. mk x = Inr q \<Longrightarrow> is_data q"
    "collect (map mk xs) = Some qs" "run_all run qs d = Some d'"
  shows "insert_each run mk xs c = (True, c\<lparr>calls := calls c @ qs, txn := Some d'\<rparr>)"
  using assms
proof (induction xs arbitrary: c d qs)
  case Nil
  then show ?case by simp
next
  case (Cons x xs)
  then obtain q qs' where q: "mk x = Inr q" "qs = q # qs'" "collect (map mk xs) = Some qs'"
    by (cases "mk x") auto
  with Cons.prems obtain d1 where d1: "run q d = Some d1" "run_all run qs' d1 = Some d'"
    by (auto split: option.splits)
  have dq: "is_data q" using Cons.prems(2) q(1) by blast
  let ?c1 = "c\<lparr>calls := calls c @ [q], txn := Some d1\<rparr>"
  have "insert_each run mk xs ?c1 = (True, ?c1\<lparr>calls := calls ?c1 @ qs', txn := Some d'\<rparr>)"
    by (rule Cons.IH[OF _ Cons.prems(2) q(3) d1(2)]) simp
  then show ?case
    using q d1 dq Cons.prems(1) by (simp add: client_query_data)
qed

lemma insert_each_fail:
  assumes "txn c = Some d" "\<And>x q. mk x = Inr q \<Longrightarrow> is_data q"
    "\<not> (\<exists>qs d'. collect (map mk xs) = Some qs \<and> run_all run qs d = Some d')"
  shows "\<exists>c'. insert_each run mk xs c = (False, c') \<and> committed c' = committed c
     \<and> released c' = released c"
  using assms
proof (induction xs arbitrary: c d)
  case Nil
  then show ?case by simp
next
  case (Cons x xs)
  show ?case
  proof (cases "mk x")
    case (Inl e)
    then show ?thesis by simp
  next
    case (Inr q)
    have dq: "is_data q" using Cons.prems(2) Inr by blast
    show ?thesis
    proof (cases "run q d")
      case None
      then show ?thesis using Inr dq Cons.prems(1) by (simp add: client_query_data)
    next
      case (Some d1)
      let ?c1 = "c\<lparr>calls := calls c @ [q], txn := Some d1\<rparr>"
      have "\<not> (\<exists>qs d'. collect (map mk xs) = Some qs \<and> run_all run qs d1 = Some d')"
        using Cons.prems(3) Inr Some by auto
      have "\<exists>c'. insert_each run mk xs ?c1 = (False, c') \<and> committed c' = committed ?c1
          \<and> released c' = released ?c1"
      proof (rule Cons.IH[where d = d1])
        show "txn ?c1 = Some d1" by simp
        show "\<And>x q. mk x = Inr q \<Longrightarrow> is_data q" by (rule Cons.prems(2))
        show "\<not> (\<exists>qs d'. collect (map mk xs) = Some qs \<and> run_all run qs d1 = Some d')" by fact
      qed
      then show ?thesis using Inr Some dq Cons.prems(1) by (simp add: client_query_data)
    qed
  qed
qed

lemma insert_each_fail_calls:
  "insert_each run mk xs c = (ok, c') \<Longrightarrow> \<exists>qs. calls c' = calls c @ qs"
proof (induction xs arbitrary: c)
  case Nil
  then show ?case by simp
next
  case (Cons x xs)
  show ?case
  proof (cases "mk x")
    case (Inl e)
    with Cons.prems show ?thesis by simp
  next
    case (Inr q)
    obtain b c1 where q: "client_query run q c = (b, c1)" by (cases "client_query run q c")
    have c1: "calls c1 = calls c @ [q]"
      using q by (cases q) (auto simp: client_query_def Let_def split: option.splits)
    show ?thesis
    proof (cases b)
      case True
      with Cons.prems Inr q have "insert_each run mk xs c1 = (ok, c')" by simp
      from Cons.IH[OF this] c1 show ?thesis by auto
    next
      case False
      with Cons.prems Inr q c1 show ?thesis by auto
    qed
  qed
qed

lemma collect_append:
  "collect (xs @ ys) = Some qs \<longleftrightarrow>
     (\<exists>a b. collect xs = Some a \<and> collect ys = Some b \<and> qs = a @ b)"
proof (induction xs arbitrary: qs)
  case Nil
  show ?case by simp
next
  case (Cons x xs)
  show ?case
  proof (cases x)
    case (Inl e)
    then show ?thesis by simp
  next
    case (Inr q)
    then show ?thesis using Cons.IH by (cases qs) auto
  qed
qed

lemma project_insert_data: "project_insert now x = Inr q \<Longrightarrow> is_data q"
  by (auto simp: project_insert_def split: sum.splits)

lemma model_insert_data: "model_insert now x = Inr q \<Longrightarrow> is_data q"
  by (auto simp: model_insert_def split: sum.splits)

lemma restore_try_ok:
  assumes "restore_inserts now ps ms = Some qs"
    "run_all run (DeleteModels # DeleteProjects # qs) (committed c) = Some d'"
  shows "restore_try run now ps ms c =
    (True, c\<lparr>calls := calls c @ [Begin, DeleteModels, DeleteProjects] @ qs @ [Commit],
              committed := d', txn := None\<rparr>)"
proof -
  from assms(1) obtain qp qm where
    qp: "collect (map (project_insert now) ps) = Some qp" and
    qm: "collect (map (model_insert now) ms) = Some qm" and qs: "qs = qp @ qm"
    by (auto simp: restore_inserts_def collect_append)
  from assms(2) obtain d1 d2 d3 where
    d1: "run DeleteModels (committed c) = Some d1" and
    d2: "run DeleteProjects d1 = Some d2" and
    d3: "run_all run qp d2 = Some d3" and
    d4: "run_all run qm d3 = Some d'"
    by (auto simp: qs run_all_append split: option.splits)
  let ?c3 = "c\<lparr>calls := calls c @ [Begin, DeleteModels, DeleteProjects], txn := Some d2\<rparr>"
  let ?c4 = "?c3\<lparr>calls := calls ?c3 @ qp, txn := Some d3\<rparr>"
  let ?c5 = "?c4\<lparr>calls := calls ?c4 @ qm, txn := Some d'\<rparr>"
  have s3: "and_then (client_query run Begin) (and_then (client_query run DeleteModels)
      (and_then (client_query run DeleteProjects) k)) c = k ?c3" for k
    using d1 d2 by (simp add: and_then_def client_query_def)
  have s4: "insert_each run (project_insert now) ps ?c3 = (True, ?c4)"
    by (rule insert_each_ok[OF _ project_insert_data qp d3]) simp
  have s5: "insert_each run (model_insert now) ms ?c4 = (True, ?c5)"
    by (rule insert_each_ok[OF _ model_insert_data qm d4]) simp
  have "restore_try run now ps ms c =
      and_then (insert_each run (project_insert now) ps)
        (and_then (insert_each run (model_insert now) ms) (client_query run Commit)) ?c3"
    unfolding restore_try_def by (rule s3)
  also have "\<dots> = and_then (insert_each run (model_insert now) ms) (client_query run Commit) ?c4"
    using s4 by (simp add: and_then_def)
  also have "\<dots> = client_query run Commit ?c5"
    using s5 by (simp add: and_then_def)
  also have "\<dots> = (True, c\<lparr>calls := calls c @ [Begin, DeleteModels, DeleteProjects] @ qs @ [Commit],
              committed := d', txn := None\<rparr>)"
    by (simp add: client_query_def qs)
  finally show ?thesis .
qed

lemma restore_try_fail:
  assumes "\<not> (\<exists>qs d'. restore_inserts now ps ms = Some qs
      \<and> run_all run (DeleteModels # DeleteProjects # qs) (committed c) = Some d')"
  shows "\<exists>c1 qs. restore_try run now ps ms c = (False, c1) \<and> committed c1 = committed c
     \<and> released c1 = released c \<and> calls c1 = calls c @ Begin # qs"
proof (cases "run DeleteModels (committed c)")
  case None
  then show ?thesis by (simp add: restore_try_def and_then_def client_query_def)
next
  case d1: (Some d1)
  show ?thesis
  proof (cases "run DeleteProjects d1")
    case None
    with d1 show ?thesis by (simp add: restore_try_def and_then_def client_query_def)
  next
    case d2: (Some d2)
    let ?c3 = "c\<lparr>calls := calls c @ [Begin, DeleteModels, DeleteProjects], txn := Some d2\<rparr>"
    have s3: "and_then (client_query run Begin) (and_then (client_query run DeleteModels)
        (and_then (client_query run DeleteProjects) k)) c = k ?c3" for k
      using d1 d2 by (simp add: and_then_def client_query_def)
    show ?thesis
    proof (cases "\<exists>qp d3. collect (map (project_insert now) ps) = Some qp
        \<and> run_all run qp d2 = Some d3")
      case False
      have "\<exists>c4. insert_each run (project_insert now) ps ?c3 = (False, c4)
          \<and> committed c4 = committed ?c3 \<and> released c4 = released ?c3"
      proof (rule insert_each_fail[where d = d2])
        show "txn ?c3 = Some d2" by simp
        show "\<And>x q. project_insert now x = Inr q \<Longrightarrow> is_data q" by (rule project_insert_data)
        show "\<not> (\<exists>qp d3. collect (map (project_insert now) ps) = Some qp
          \<and> run_all run qp d2 = Some d3)" by (rule False)
      qed
      then obtain c4 where c4: "insert_each run (project_insert now) ps ?c3 = (False, c4)"
        "committed c4 = committed c" "released c4 = released c" by auto
      from insert_each_fail_calls[OF c4(1)] obtain qs where "calls c4 = calls ?c3 @ qs" by blast
      with c4 show ?thesis unfolding restore_try_def s3 by (simp add: and_then_def)
    next
      case True
      then obtain qp d3 where qp: "collect (map (project_insert now) ps) = Some qp"
        and d3: "run_all run qp d2 = Some d3" by blast
      let ?c4 = "?c3\<lparr>calls := calls ?c3 @ qp, txn := Some d3\<rparr>"
      have s4: "insert_each run (project_insert now) ps ?c3 = (True, ?c4)"
        by (rule insert_each_ok[OF _ project_insert_data qp d3]) simp
      have nm: "\<not> (\<exists>qm d'. collect (map (model_insert now) ms) = Some qm
          \<and> run_all run qm d3 = Some d')"
      proof
        assume "\<exists>qm d'. collect (map (model_insert now) ms) = Some qm
          \<and> run_all run qm d3 = Some d'"
        then obtain qm d' where "collect (map (model_insert now) ms) = Some qm"
          "run_all run qm d3 = Some d'" by blast
        then have "restore_inserts now ps ms = Some (qp @ qm)
          \<and> run_all run (DeleteModels # DeleteProjects # (qp @ qm)) (committed c) = Some d'"
          using qp d1 d2 d3 by (simp add: restore_inserts_def collect_append run_all_append)
        with assms show False by blast
      qed
      have "\<exists>c5. insert_each run (model_insert now) ms ?c4 = (False, c5)
          \<and> committed c5 = committed ?c4 \<and> released c5 = released ?c4"
      proof (rule insert_each_fail[where d = d3])
        show "txn ?c4 = Some d3" by simp
        show "\<And>x q. model_insert now x = Inr q \<Longrightarrow> is_data q" by (rule model_insert_data)
        show "\<not> (\<exists>qm d'. collect (map (model_insert now) ms) = Some qm
          \<and> run_all run qm d3 = Some d')" by (rule nm)
      qed
      then obtain c5 where c5: "insert_each run (model_insert now) ms ?c4 = (False, c5)"
        "committed c5 = committed c" "released c5 = released c" by auto
      from insert_each_fail_calls[OF c5(1)] obtain qs where "calls c5 = calls ?c4 @ qs" by blast
      with c5 show ?thesis unfolding restore_try_def s3 using s4 by (simp add: and_then_def)
    qed
  qed
qed

text \<open>
  Claim C9. \<open>POST /api/restore\<close>: a body whose \<open>projects\<close> or \<open>models\<close> is not an
  array is answered 400 and the client is not used; when the pool gives no client the
  answer is 500 and nothing is sent. When both are arrays and every
  statement is accepted, the client receives \<open>BEGIN\<close>, \<open>DELETE FROM models\<close>,
  \<open>DELETE FROM projects\<close>, one insert per project, one insert per model and
  \<open>COMMIT\<close>, in this order, the stored data becomes what these statements produce and
  the answer is 200 with the two counts. When building or running one of the statements
  fails, the client receives \<open>ROLLBACK\<close> last, the stored data is what it was before
  the request and the answer is 500. This holds for every database behaviour \<open>run\<close>.
\<close>

theorem restore_all_or_nothing:
  fixes run :: "sql \<Rightarrow> 'd \<Rightarrow> 'd option"
  shows
    "(restore_request_arrays req_body = None \<longrightarrow>
        post_restore run now client req_body =
          (\<lparr>status = 400, payload = ErrorReply ''Invalid backup payload.''\<rparr>, client))
   \<and> (restore_request_arrays req_body \<noteq> None \<longrightarrow>
        post_restore run now None req_body =
          (\<lparr>status = 500, payload = ErrorReply ''Internal server error.''\<rparr>, None))
   \<and> (\<forall>ps ms. restore_request_arrays req_body = Some (ps, ms) \<longrightarrow>
        (\<forall>qs d'. restore_inserts now ps ms = Some qs
            \<and> run_all run (DeleteModels # DeleteProjects # qs) (committed c) = Some d' \<longrightarrow>
          post_restore run now (Some c) req_body =
            (\<lparr>status = 200, payload = RestoreReply (length ps) (length ms)\<rparr>,
             Some (c\<lparr>calls := calls c @ [Begin, DeleteModels, DeleteProjects] @ qs @ [Commit],
                      committed := d', txn := None, released := True\<rparr>)))
      \<and> (\<not> (\<exists>qs d'. restore_inserts now ps ms = Some qs
            \<and> run_all run (DeleteModels # DeleteProjects # qs) (committed c) = Some d') \<longrightarrow>
          (\<exists>c' qs. post_restore run now (Some c) req_body =
              (\<lparr>status = 500, payload = ErrorReply ''Internal server error.''\<rparr>, Some c')
            \<and> committed c' = committed c \<and> txn c' = None \<and> released c'
            \<and> calls c' = calls c @ Begin # qs @ [Rollback])))"
proof (intro conjI impI allI)
  assume "restore_request_arrays req_body = None"
  then show "post_restore run now client req_body =
      (\<lparr>status = 400, payload = ErrorReply ''Invalid backup payload.''\<rparr>, client)"
    by (auto simp: restore_request_arrays_def post_restore_def Let_def split: json.splits)
next
  assume "restore_request_arrays req_body \<noteq> None"
  then show "post_restore run now None req_body =
      (\<lparr>status = 500, payload = ErrorReply ''Internal server error.''\<rparr>, None)"
    by (auto simp: restore_request_arrays_def post_restore_def Let_def split: json.splits)
next
  fix ps ms qs d'
  assume a: "restore_request_arrays req_body = Some (ps, ms)"
    and b: "restore_inserts now ps ms = Some qs
      \<and> run_all run (DeleteModels # DeleteProjects # qs) (committed c) = Some d'"
  from a have arr: "field_of (coalesce req_body (JObj [])) ''projects'' = JArr ps"
    "field_of (coalesce req_body (JObj [])) ''models'' = JArr ms"
    by (auto simp: restore_request_arrays_def Let_def split: json.splits)
  from b restore_try_ok[of now ps ms qs run c d']
  show "post_restore run now (Some c) req_body =
      (\<lparr>status = 200, payload = RestoreReply (length ps) (length ms)\<rparr>,
       Some (c\<lparr>calls := calls c @ [Begin, DeleteModels, DeleteProjects] @ qs @ [Commit],
                committed := d', txn := None, released := True\<rparr>))"
    by (simp add: post_restore_def Let_def arr)
next
  fix ps ms
  assume a: "restore_request_arrays req_body = Some (ps, ms)"
    and b: "\<not> (\<exists>qs d'. restore_inserts now ps ms = Some qs
      \<and> run_all run (DeleteModels # DeleteProjects # qs) (committed c) = Some d')"
  from a have arr: "field_of (coalesce req_body (JObj [])) ''projects'' = JArr ps"
    "field_of (coalesce req_body (JObj [])) ''models'' = JArr ms"
    by (auto simp: restore_request_arrays_def Let_def split: json.splits)
  from restore_try_fail[OF b] obtain c1 qs where
    c1: "restore_try run now ps ms c = (False, c1)" "committed c1 = committed c"
      "calls c1 = calls c @ Begin # qs" by blast
  show "\<exists>c' qs. post_restore run now (Some c) req_body =
        (\<lparr>status = 500, payload = ErrorReply ''Internal server error.''\<rparr>, Some c')
      \<and> committed c' = committed c \<and> txn c' = None \<and> released c'
      \<and> calls c' = calls c @ Begin # qs @ [Rollback]"
    using c1 by (simp add: post_restore_def Let_def arr client_query_def)
qed


theorem restore_all_or_nothing_witness:
  "post_restore pg_run (ascii ''t'') (Some stored0) (JObj [(''projects'', JStr (ascii ''x''))]) =
      (\<lparr>status = 400, payload = ErrorReply ''Invalid backup payload.''\<rparr>, Some stored0)
   \<and> post_restore pg_run (ascii ''t'') (Some stored0) backup_ok =
      (\<lparr>status = 200, payload = RestoreReply 1 1\<rparr>,
       Some \<lparr>committed = \<lparr>tbl_projects = [(JStr (ascii ''p1''), JStr (ascii ''Core''), JNull)],
                tbl_models = [(JStr (ascii ''m1''), JStr (ascii ''p1''), JStr (ascii ''System View''), JNull,
                   createEmptyModel_json)]\<rparr>,
             txn = None,
             calls = [Begin, DeleteModels, DeleteProjects,
                InsertProject (JStr (ascii ''p1'')) (JStr (ascii ''Core'')) JNull (JStr (ascii ''t'')) (JStr (ascii ''t'')),
                InsertModel (JStr (ascii ''m1'')) (JStr (ascii ''p1'')) (JStr (ascii ''System View'')) JNull
                   createEmptyModel_json (JStr (ascii ''t'')) (JStr (ascii ''t'')),
                Commit],
             released = True\<rparr>)
   \<and> (\<exists>c' qs. post_restore pg_run (ascii ''t'') (Some stored0) backup_dup =
          (\<lparr>status = 500, payload = ErrorReply ''Internal server error.''\<rparr>, Some c')
        \<and> committed c' = committed stored0 \<and> txn c' = None \<and> released c'
        \<and> calls c' = calls stored0 @ Begin # qs @ [Rollback])"
proof -
  have a: "restore_request_arrays (JObj [(''projects'', JStr (ascii ''x''))]) = None"
    by (simp add: restore_request_arrays_def coalesce_def nullish_def)
  have b: "restore_request_arrays backup_ok =
      Some ([JObj [(''id'', JStr (ascii ''p1'')), (''name'', JStr (ascii ''Core''))]],
            [JObj [(''id'', JStr (ascii ''m1'')), (''projectId'', JStr (ascii ''p1'')),
               (''name'', JStr (ascii ''System View''))]])"
    by (simp add: restore_request_arrays_def backup_ok_def coalesce_def nullish_def)
  have c: "restore_request_arrays backup_dup =
      Some ([JObj [(''id'', JStr (ascii ''p1'')), (''name'', JStr (ascii ''Core''))],
             JObj [(''id'', JStr (ascii ''p1'')), (''name'', JStr (ascii ''Again''))]], [])"
    by (simp add: restore_request_arrays_def backup_dup_def coalesce_def nullish_def)
  have bi: "restore_inserts (ascii ''t'') [JObj [(''id'', JStr (ascii ''p1'')), (''name'', JStr (ascii ''Core''))]]
      [JObj [(''id'', JStr (ascii ''m1'')), (''projectId'', JStr (ascii ''p1'')), (''name'', JStr (ascii ''System View''))]] =
      Some [InsertProject (JStr (ascii ''p1'')) (JStr (ascii ''Core'')) JNull (JStr (ascii ''t'')) (JStr (ascii ''t'')),
            InsertModel (JStr (ascii ''m1'')) (JStr (ascii ''p1'')) (JStr (ascii ''System View'')) JNull
              createEmptyModel_json (JStr (ascii ''t'')) (JStr (ascii ''t''))]"
    by (simp add: restore_inserts_def project_insert_def model_insert_def coalesce_def nullish_def)
  have br: "run_all pg_run [DeleteModels, DeleteProjects,
        InsertProject (JStr (ascii ''p1'')) (JStr (ascii ''Core'')) JNull (JStr (ascii ''t'')) (JStr (ascii ''t'')),
        InsertModel (JStr (ascii ''m1'')) (JStr (ascii ''p1'')) (JStr (ascii ''System View'')) JNull
          createEmptyModel_json (JStr (ascii ''t'')) (JStr (ascii ''t''))] (committed stored0) =
      Some \<lparr>tbl_projects = [(JStr (ascii ''p1''), JStr (ascii ''Core''), JNull)],
            tbl_models = [(JStr (ascii ''m1''), JStr (ascii ''p1''), JStr (ascii ''System View''), JNull,
               createEmptyModel_json)]\<rparr>"
    by (simp add: stored0_def)
  have ci: "restore_inserts (ascii ''t'') [JObj [(''id'', JStr (ascii ''p1'')), (''name'', JStr (ascii ''Core''))],
             JObj [(''id'', JStr (ascii ''p1'')), (''name'', JStr (ascii ''Again''))]] [] =
      Some [InsertProject (JStr (ascii ''p1'')) (JStr (ascii ''Core'')) JNull (JStr (ascii ''t'')) (JStr (ascii ''t'')),
            InsertProject (JStr (ascii ''p1'')) (JStr (ascii ''Again'')) JNull (JStr (ascii ''t'')) (JStr (ascii ''t''))]"
    by (simp add: restore_inserts_def project_insert_def coalesce_def nullish_def)
  have cr: "run_all pg_run [DeleteModels, DeleteProjects,
        InsertProject (JStr (ascii ''p1'')) (JStr (ascii ''Core'')) JNull (JStr (ascii ''t'')) (JStr (ascii ''t'')),
        InsertProject (JStr (ascii ''p1'')) (JStr (ascii ''Again'')) JNull (JStr (ascii ''t'')) (JStr (ascii ''t''))]
        (committed stored0) = None"
    by (simp add: stored0_def)
  note t1 = restore_all_or_nothing[where run = pg_run and now = "ascii ''t''" and c = stored0
      and client = "Some stored0" and req_body = "JObj [(''projects'', JStr (ascii ''x''))]"]
  note t2 = restore_all_or_nothing[where run = pg_run and now = "ascii ''t''" and c = stored0
      and client = "Some stored0" and req_body = backup_ok]
  note t3 = restore_all_or_nothing[where run = pg_run and now = "ascii ''t''" and c = stored0
      and client = "Some stored0" and req_body = backup_dup]
  have p1: "post_restore pg_run (ascii ''t'') (Some stored0) (JObj [(''projects'', JStr (ascii ''x''))]) =
      (\<lparr>status = 400, payload = ErrorReply ''Invalid backup payload.''\<rparr>, Some stored0)"
    using t1 a by simp
  have p2: "post_restore pg_run (ascii ''t'') (Some stored0) backup_ok =
      (\<lparr>status = 200, payload = RestoreReply 1 1\<rparr>,
       Some \<lparr>committed = \<lparr>tbl_projects = [(JStr (ascii ''p1''), JStr (ascii ''Core''), JNull)],
                tbl_models = [(JStr (ascii ''m1''), JStr (ascii ''p1''), JStr (ascii ''System View''), JNull,
                   createEmptyModel_json)]\<rparr>,
             txn = None,
             calls = [Begin, DeleteModels, DeleteProjects,
                InsertProject (JStr (ascii ''p1'')) (JStr (ascii ''Core'')) JNull (JStr (ascii ''t'')) (JStr (ascii ''t'')),
                InsertModel (JStr (ascii ''m1'')) (JStr (ascii ''p1'')) (JStr (ascii ''System View'')) JNull
                   createEmptyModel_json (JStr (ascii ''t'')) (JStr (ascii ''t'')),
                Commit],
             released = True\<rparr>)"
    using t2 b bi br by (simp add: stored0_def)
  have p3: "\<exists>c' qs. post_restore pg_run (ascii ''t'') (Some stored0) backup_dup =
          (\<lparr>status = 500, payload = ErrorReply ''Internal server error.''\<rparr>, Some c')
        \<and> committed c' = committed stored0 \<and> txn c' = None \<and> released c'
        \<and> calls c' = calls stored0 @ Begin # qs @ [Rollback]"
    using t3 c ci cr by simp
  show ?thesis using p1 p2 p3 by blast
qed


subsection \<open>Project creation\<close>

lemma trim_padded_name: "trim padded_name = ascii ''Core''"
  by (simp add: padded_name_def ascii_def trim_def is_ws_def)

lemma trim_nonempty: "trim s \<noteq> [] \<Longrightarrow> s \<noteq> []"
  by (auto simp: trim_def)

text \<open>
  Claim C8, as stated, fails: a name that is present and not blank, the number 42, is
  answered 400 and nothing is inserted, where the claim promises 201.
\<close>

theorem post_projects_number_name_counterexample:
  "\<not> spec_name_missing_or_blank (field_of (JObj [(''name'', JNum 42)]) ''name'')
   \<and> post_projects no_count (accepting_query sample_now) sample_uuid
        (JObj [(''name'', JNum 42)]) =
       (\<lparr>status = 400, payload = ErrorReply ''Project name is required.''\<rparr>, [])"
  by (simp add: spec_name_missing_or_blank_def post_projects_def coalesce_def nullish_def)

text \<open>
  Claim C8, amended. \<open>POST /api/projects\<close>: when the name of the body is missing,
  is not a string or is the empty string, the answer is 400 with the validation error and
  no statement is sent. When the name is a string with a character that is not white
  space, exactly one insert is sent, with the trimmed name and the description (null when
  it is missing), and when the database returns the stored row the answer is 201 with the
  created project: that id, the trimmed name, the stored description and a model count of 0.
\<close>

theorem post_projects_validation:
  fixes query :: "sql \<Rightarrow> js_error + ProjectRow list" and req_body :: json
  defines "name \<equiv> field_of (coalesce req_body (JObj [])) ''name''"
    and "description \<equiv> field_of (coalesce req_body (JObj [])) ''description''"
  shows
    "(\<not> (\<exists>s. name = JStr s \<and> s \<noteq> []) \<longrightarrow>
        post_projects parseInt query uuid req_body =
          (\<lparr>status = 400, payload = ErrorReply ''Project name is required.''\<rparr>, []))
   \<and> (\<forall>s. name = JStr s \<and> trim s \<noteq> [] \<longrightarrow>
        snd (post_projects parseInt query uuid req_body) =
          [InsertProjectReturning uuid (trim s) (coalesce description JNull)]
      \<and> (nullish description \<longrightarrow> coalesce description JNull = JNull)
      \<and> (\<forall>d now.
            query (InsertProjectReturning uuid (trim s) (coalesce description JNull)) =
              Inr [returned_row uuid (trim s) d now] \<longrightarrow>
            fst (post_projects parseInt query uuid req_body) =
              \<lparr>status = 201, payload = ProjectReply
                 \<lparr>j_id = uuid, j_name = trim s, j_description = d,
                  j_createdAt = now, j_updatedAt = now, j_modelCount = 0\<rparr>\<rparr>))"
proof (intro conjI impI allI)
  assume "\<not> (\<exists>s. name = JStr s \<and> s \<noteq> [])"
  then show "post_projects parseInt query uuid req_body =
      (\<lparr>status = 400, payload = ErrorReply ''Project name is required.''\<rparr>, [])"
    unfolding name_def post_projects_def Let_def
    by (cases "field_of (coalesce req_body (JObj [])) ''name''") auto
next
  fix s
  assume "name = JStr s \<and> trim s \<noteq> []"
  then have n: "field_of (coalesce req_body (JObj [])) ''name'' = JStr s" and "s \<noteq> []"
    by (auto simp: name_def dest: trim_nonempty)
  then show "snd (post_projects parseInt query uuid req_body) =
      [InsertProjectReturning uuid (trim s) (coalesce description JNull)]"
    by (simp add: post_projects_def Let_def description_def split: sum.splits list.splits)
next
  assume "nullish description"
  then show "coalesce description JNull = JNull" by (simp add: coalesce_def)
next
  fix s d now
  assume a: "name = JStr s \<and> trim s \<noteq> []"
    and q: "query (InsertProjectReturning uuid (trim s) (coalesce description JNull)) =
      Inr [returned_row uuid (trim s) d now]"
  from a have n: "field_of (coalesce req_body (JObj [])) ''name'' = JStr s" and "s \<noteq> []"
    by (auto simp: name_def dest: trim_nonempty)
  then show "fst (post_projects parseInt query uuid req_body) =
      \<lparr>status = 201, payload = ProjectReply
         \<lparr>j_id = uuid, j_name = trim s, j_description = d,
          j_createdAt = now, j_updatedAt = now, j_modelCount = 0\<rparr>\<rparr>"
    using q
    by (simp add: post_projects_def Let_def description_def[symmetric] mapProjectRow_def
        returned_row_def)
qed

theorem post_projects_validation_witness:
  "post_projects no_count (accepting_query sample_now) sample_uuid (JObj []) =
     (\<lparr>status = 400, payload = ErrorReply ''Project name is required.''\<rparr>, [])
   \<and> post_projects no_count (accepting_query sample_now) sample_uuid
       (JObj [(''name'', JStr padded_name)]) =
     (\<lparr>status = 201, payload = ProjectReply
         \<lparr>j_id = sample_uuid, j_name = ascii ''Core'', j_description = None,
          j_createdAt = sample_now, j_updatedAt = sample_now, j_modelCount = 0\<rparr>\<rparr>,
      [InsertProjectReturning sample_uuid (ascii ''Core'') JNull])"
proof -
  have t: "trim padded_name = ascii ''Core''" by (rule trim_padded_name)
  have ne: "ascii ''Core'' \<noteq> []" by (simp add: ascii_def)
  have q: "accepting_query sample_now (InsertProjectReturning sample_uuid (ascii ''Core'') JNull) =
      Inr [returned_row sample_uuid (ascii ''Core'') None sample_now]"
    by (simp add: accepting_query_def)
  show ?thesis
    using post_projects_validation[where req_body = "JObj []"
        and query = "accepting_query sample_now" and uuid = sample_uuid and parseInt = no_count]
      post_projects_validation[where req_body = "JObj [(''name'', JStr padded_name)]"
        and query = "accepting_query sample_now" and uuid = sample_uuid and parseInt = no_count]
    by (simp add: coalesce_def nullish_def t ne q prod_eq_iff)
qed

text \<open>
  A name of white space only passes the guard: it is trimmed after the test and stored as
  the empty string.
\<close>

lemma post_projects_blank_name_stored:
  "post_projects no_count (accepting_query sample_now) sample_uuid
     (JObj [(''name'', JStr [0x20, 0xA0])]) =
     (\<lparr>status = 201, payload = ProjectReply
         \<lparr>j_id = sample_uuid, j_name = [], j_description = None,
          j_createdAt = sample_now, j_updatedAt = sample_now, j_modelCount = 0\<rparr>\<rparr>,
      [InsertProjectReturning sample_uuid [] JNull])"
  by (simp add: post_projects_def coalesce_def nullish_def trim_def is_ws_def
      accepting_query_def returned_row_def mapProjectRow_def)

section \<open>Properties of the controller\<close>

lemma setModel_hydrating:
  "isHydratingRef s \<Longrightarrow> setModel m s = s\<lparr>store := m\<rparr>"
  by (simp add: setModel_def listener_def Let_def)

lemma loadModel_settled_stale:
  "token \<noteq> loadTokenRef s \<Longrightarrow> loadModel_settled token (Inr d) s = s"
  by (simp add: loadModel_settled_def)

lemma loadModel_settled_current:
  "isHydratingRef s \<Longrightarrow>
   loadModel_settled (loadTokenRef s) (Inr d) s =
     s\<lparr>store := model_or_empty d, saveStatus := Idle, isHydratingRef := False,
       isLoadingModel := False\<rparr>"
  by (simp add: loadModel_settled_def setModel_hydrating model_or_empty_def)

text \<open>
  Claim C2. Load A is issued, then load B before A's fetch resolves. B's token is the
  larger one. Whichever fetch resolves first, A's response changes nothing and the store
  ends up holding the model fetched for B (the empty model when the response has none).
  In any later state too, a response whose token is no longer the last one issued is
  dropped without a write.
\<close>

theorem load_token_supersession:
  "let s1 = loadModel a s; s2 = loadModel b s1;
       tokA = loadTokenRef s1; tokB = loadTokenRef s2
   in tokA < tokB
    \<and> suspended s2 = suspended s @ [PFetchModel tokA, PFetchModel tokB]
    \<and> loadModel_settled tokA (Inr da) s2 = s2
    \<and> store (loadModel_settled tokB (Inr db) (loadModel_settled tokA (Inr da) s2)) = model_or_empty db
    \<and> store (loadModel_settled tokB (Inr db) s2) = model_or_empty db
    \<and> loadModel_settled tokA (Inr da) (loadModel_settled tokB (Inr db) s2) =
        loadModel_settled tokB (Inr db) s2
    \<and> (\<forall>x. tokA \<noteq> loadTokenRef x \<longrightarrow> loadModel_settled tokA (Inr da) x = x)"
proof -
  define s1 where "s1 = loadModel a s"
  define s2 where "s2 = loadModel b s1"
  have t: "loadTokenRef s1 < loadTokenRef s2" "isHydratingRef s2"
    "suspended s2 = suspended s @ [PFetchModel (loadTokenRef s1), PFetchModel (loadTokenRef s2)]"
    by (simp_all add: s1_def s2_def loadModel_def Let_def)
  have stale: "loadModel_settled (loadTokenRef s1) (Inr da) s2 = s2"
    using t(1) by (simp add: loadModel_settled_stale)
  have cur: "loadModel_settled (loadTokenRef s2) (Inr db) s2 =
      s2\<lparr>store := model_or_empty db, saveStatus := Idle, isHydratingRef := False,
        isLoadingModel := False\<rparr>"
    using t(2) by (rule loadModel_settled_current)
  have late: "loadModel_settled (loadTokenRef s1) (Inr da)
      (loadModel_settled (loadTokenRef s2) (Inr db) s2) =
      loadModel_settled (loadTokenRef s2) (Inr db) s2"
    unfolding cur using t(1) by (simp add: loadModel_settled_stale)
  show ?thesis
    unfolding Let_def s1_def[symmetric] s2_def[symmetric]
    using t stale late by (simp add: cur loadModel_settled_stale)
qed

lemma tracked_cleared:
  assumes "timers_tracked s" "saveTimeoutRef s = Some h"
  shows "filter (\<lambda>t. t_id t \<noteq> h) (timers s) = []"
  using assms by (auto simp: timers_tracked_def list_all_iff filter_empty_conv)

lemma tracked_no_handle:
  assumes "timers_tracked s" "\<not> truthy_handle (saveTimeoutRef s)"
  shows "timers s = []"
proof (cases "timers s")
  case Nil
  then show ?thesis .
next
  case (Cons t ts)
  with assms show ?thesis by (auto simp: timers_tracked_def truthy_handle_def)
qed

text \<open>
  Claim C10. \<open>saveCurrentModel\<close> called while no model is active (the model ref is
  null or empty) issues no request and leaves the save status, the time of the last save
  and the error as they are; it cancels the pending timer all the same, so afterwards no
  timer is pending and none can fire.
\<close>

theorem saveCurrentModel_without_model:
  assumes "\<not> truthy_id (activeModelIdRef s)" and "timers_tracked s"
  shows "requests (saveCurrentModel Return s) = requests s
    \<and> suspended (saveCurrentModel Return s) = suspended s
    \<and> saveStatus (saveCurrentModel Return s) = saveStatus s
    \<and> lastSavedAt (saveCurrentModel Return s) = lastSavedAt s
    \<and> error (saveCurrentModel Return s) = error s
    \<and> timers (saveCurrentModel Return s) = []
    \<and> \<not> truthy_handle (saveTimeoutRef (saveCurrentModel Return s))
    \<and> fire h (saveCurrentModel Return s) = saveCurrentModel Return s"
proof (cases "truthy_handle (saveTimeoutRef s)")
  case True
  then obtain k where k: "saveTimeoutRef s = Some k" "k \<noteq> 0"
    by (auto simp: truthy_handle_def split: option.splits)
  have "saveCurrentModel Return s =
      s\<lparr>timers := filter (\<lambda>t. t_id t \<noteq> k) (timers s), saveTimeoutRef := None\<rparr>"
    using assms(1) k by (simp add: saveCurrentModel_def Let_def clearTimeout_def)
  then show ?thesis
    using tracked_cleared[OF assms(2) k(1)] by (simp add: truthy_handle_def fire_def)
next
  case False
  then have "saveCurrentModel Return s = s"
    using assms(1) by (auto simp: saveCurrentModel_def Let_def truthy_handle_def split: option.splits)
  then show ?thesis
    using False tracked_no_handle[OF assms(2) False] by (simp add: fire_def)
qed

theorem saveCurrentModel_without_model_witness:
  "timers stale_timer_state \<noteq> []
   \<and> requests (saveCurrentModel Return stale_timer_state) = []
   \<and> saveStatus (saveCurrentModel Return stale_timer_state) = Error
   \<and> lastSavedAt (saveCurrentModel Return stale_timer_state) = None
   \<and> error (saveCurrentModel Return stale_timer_state) = Some ''x''
   \<and> timers (saveCurrentModel Return stale_timer_state) = []
   \<and> fire 1 (saveCurrentModel Return stale_timer_state) = saveCurrentModel Return stale_timer_state"
proof -
  have a: "\<not> truthy_id (activeModelIdRef stale_timer_state)"
    by (simp add: stale_timer_state_def init_def truthy_id_def)
  have b: "timers_tracked stale_timer_state"
    by (simp add: stale_timer_state_def init_def timers_tracked_def)
  have c: "timers stale_timer_state \<noteq> []" "requests stale_timer_state = []"
    "saveStatus stale_timer_state = Error" "lastSavedAt stale_timer_state = None"
    "error stale_timer_state = Some ''x''"
    by (simp_all add: stale_timer_state_def init_def)
  show ?thesis
    using saveCurrentModel_without_model[OF a b, of 1] c by simp
qed

text \<open>
  Claim C6. After a delete of a project that succeeded remotely: when the deleted id is
  the active one (the project ref), the active project and the active model become null,
  the cached models are cleared, the store is reset to the empty model and the project
  leaves the listing; otherwise the project leaves the listing and nothing else changes.
\<close>

theorem deleteProject_selection:
  "(activeProjectIdRef s = Some projectId \<longrightarrow>
      activeProjectId (handleDeleteProject_settled projectId (Inr ()) s) = None
    \<and> activeModelId (handleDeleteProject_settled projectId (Inr ()) s) = None
    \<and> models (handleDeleteProject_settled projectId (Inr ()) s) = []
    \<and> store (handleDeleteProject_settled projectId (Inr ()) s) = createEmptyModel
    \<and> projects (handleDeleteProject_settled projectId (Inr ()) s) =
        filter (\<lambda>item. p_id item \<noteq> projectId) (projects s))
 \<and> (activeProjectIdRef s \<noteq> Some projectId \<longrightarrow>
      handleDeleteProject_settled projectId (Inr ()) s =
        s\<lparr>projects := filter (\<lambda>item. p_id item \<noteq> projectId) (projects s),
          projectsVer := Suc (projectsVer s)\<rparr>)"
  by (simp add: handleDeleteProject_settled_def setProjects_def setModels_def setModel_def
      listener_def queueSave_def setTimeout_def clearTimeout_def Let_def split: option.splits)

lemma count_ok_create:
  assumes "m_projectId model = projectId" "count_ok ms p"
  shows "count_ok (model # ms)
    (if p_id p = projectId then p\<lparr>modelCount := modelCount p + 1\<rparr> else p)"
  using assms by (auto simp: count_ok_def)

lemma filter_without_absent:
  "find (\<lambda>item. m_id item = modelId) ms = None \<Longrightarrow>
   filter (\<lambda>item. m_id item \<noteq> modelId) ms = ms"
  by (induction ms) (auto split: if_splits)

lemma count_after_removal:
  assumes "distinct (map m_id ms)" "find (\<lambda>item. m_id item = modelId) ms = Some m"
  shows "length (filter P (filter (\<lambda>item. m_id item \<noteq> modelId) ms)) =
    length (filter P ms) - (if P m then 1 else 0)"
  using assms
proof (induction ms)
  case Nil
  then show ?case by simp
next
  case (Cons x xs)
  show ?case
  proof (cases "m_id x = modelId")
    case True
    with Cons.prems have m: "m = x" by simp
    from True Cons.prems(1) have "\<forall>y\<in>set xs. m_id y \<noteq> modelId"
      by (auto simp: image_iff)
    then have "filter (\<lambda>item. m_id item \<noteq> modelId) xs = xs" by (simp add: filter_id_conv)
    with True m show ?thesis by simp
  next
    case False
    with Cons.prems have f: "find (\<lambda>item. m_id item = modelId) xs = Some m" by simp
    then have "m \<in> set xs" by (auto simp: find_Some_iff)
    then have "P m \<Longrightarrow> 0 < length (filter P xs)" by (auto simp: filter_empty_conv)
    with Cons.IH[OF _ f] Cons.prems(1) False show ?thesis by auto
  qed
qed

lemma count_ok_delete:
  assumes "distinct (map m_id ms)" "find (\<lambda>item. m_id item = modelId) ms = Some m"
    "count_ok ms p"
  shows "count_ok (filter (\<lambda>item. m_id item \<noteq> modelId) ms)
    (if p_id p = m_projectId m then p\<lparr>modelCount := max 0 (modelCount p - 1)\<rparr> else p)"
proof -
  have mem: "m \<in> set ms" using assms(2) by (auto simp: find_Some_iff)
  let ?P = "\<lambda>x. m_projectId x = p_id p"
  have c: "length (filter ?P (filter (\<lambda>item. m_id item \<noteq> modelId) ms)) =
      length (filter ?P ms) - (if ?P m then 1 else 0)"
    by (rule count_after_removal[OF assms(1,2)])
  show ?thesis
  proof (cases "p_id p = m_projectId m")
    case True
    then have "0 < length (filter ?P ms)" using mem by (auto simp: filter_empty_conv)
    then have "int (length (filter ?P ms) - 1) = int (length (filter ?P ms)) - 1"
      by (cases "filter ?P ms") simp_all
    with True c assms(3) show ?thesis by (simp add: count_ok_def)
  next
    case False
    with c assms(3) show ?thesis by (auto simp: count_ok_def)
  qed
qed

text \<open>
  Claim C7, as stated, fails. The model cache holds the models of the active project
  only: after a model is created in A, project B still shows its two models and none of
  them is cached. And \<open>deleteModel\<close> finds the owner in the listing of the render that
  handed it out: called before the provider has rendered the listing with the new model,
  it removes the model and leaves the count of A at one.
\<close>

theorem modelCount_cache_counterexample:
  "map p_id (projects after_create_A) = [''A'', ''B'']
   \<and> map modelCount (projects after_create_A) = [1, 2]
   \<and> map m_projectId (models after_create_A) = [''A'']
   \<and> \<not> counts_consistent after_create_A
   \<and> count_ok (models after_create_A) (projects after_create_A ! 0)
   \<and> models (deleted ''a1'' after_create_A) = []
   \<and> map modelCount (projects (deleted ''a1'' after_create_A)) = [1, 2]
   \<and> \<not> count_ok (models (deleted ''a1'' after_create_A))
         (projects (deleted ''a1'' after_create_A) ! 0)"
  by code_simp

lemma created_eq:
  assumes "rendered s \<noteq> None"
  shows "created projectId pl model s =
    handleCreateModel_settled projectId (Inr model)
      (s\<lparr>error := None, requests := requests s @ [CreateModel projectId pl]\<rparr>)"
  using assms
  by (auto simp: created_def run_events_def called_def handleCreateModel_def settle_def
      nth_append)

lemma deleted_eq:
  assumes "rendered s = Some c" "r_models c = models s"
  shows "deleted modelId s =
    handleDeleteModel_settled modelId
      (map_option m_projectId (find (\<lambda>item. m_id item = modelId) (models s))) (Inr ())
      (s\<lparr>error := None, requests := requests s @ [DeleteModel modelId]\<rparr>)"
  using assms
  by (simp add: deleted_def run_events_def called_def handleDeleteModel_def settle_def
      nth_append Let_def)

lemma create_settled_counts:
  assumes "m_projectId model = projectId"
  shows "models (handleCreateModel_settled projectId (Inr model) s) = model # models s"
    "requests (handleCreateModel_settled projectId (Inr model) s) = requests s"
    "projects (handleCreateModel_settled projectId (Inr model) s) =
        map (\<lambda>item. if p_id item = projectId
               then item\<lparr>modelCount := modelCount item + 1\<rparr> else item) (projects s)"
    "\<forall>i < length (projects s). count_ok (models s) (projects s ! i) \<longrightarrow>
          count_ok (models (handleCreateModel_settled projectId (Inr model) s))
            (projects (handleCreateModel_settled projectId (Inr model) s) ! i)"
proof -
  have m: "models (handleCreateModel_settled projectId (Inr model) s) = model # models s"
    by (simp add: handleCreateModel_settled_def setProjects_def setModels_def)
  have p: "projects (handleCreateModel_settled projectId (Inr model) s) =
      map (\<lambda>item. if p_id item = projectId
             then item\<lparr>modelCount := modelCount item + 1\<rparr> else item) (projects s)"
    by (simp add: handleCreateModel_settled_def setProjects_def setModels_def)
  show "models (handleCreateModel_settled projectId (Inr model) s) = model # models s" by (rule m)
  show "projects (handleCreateModel_settled projectId (Inr model) s) =
      map (\<lambda>item. if p_id item = projectId
             then item\<lparr>modelCount := modelCount item + 1\<rparr> else item) (projects s)" by (rule p)
  show "requests (handleCreateModel_settled projectId (Inr model) s) = requests s"
    by (simp add: handleCreateModel_settled_def setProjects_def setModels_def)
  show "\<forall>i < length (projects s). count_ok (models s) (projects s ! i) \<longrightarrow>
          count_ok (models (handleCreateModel_settled projectId (Inr model) s))
            (projects (handleCreateModel_settled projectId (Inr model) s) ! i)"
    unfolding m p using count_ok_create[OF assms] by simp
qed

lemma delete_settled_counts:
  assumes "distinct (map m_id (models s))" "\<forall>m \<in> set (models s). m_projectId m \<noteq> []"
    "owner = map_option m_projectId (find (\<lambda>item. m_id item = modelId) (models s))"
  shows "models (handleDeleteModel_settled modelId owner (Inr ()) s) =
        filter (\<lambda>item. m_id item \<noteq> modelId) (models s)"
    "requests (handleDeleteModel_settled modelId owner (Inr ()) s) = requests s"
    "projects (handleDeleteModel_settled modelId owner (Inr ()) s) =
        (case find (\<lambda>item. m_id item = modelId) (models s) of
           None \<Rightarrow> projects s
         | Some m \<Rightarrow>
             map (\<lambda>item. if p_id item = m_projectId m
                    then item\<lparr>modelCount := max 0 (modelCount item - 1)\<rparr> else item)
               (projects s))"
    "\<forall>i < length (projects s). count_ok (models s) (projects s ! i) \<longrightarrow>
          count_ok (models (handleDeleteModel_settled modelId owner (Inr ()) s))
            (projects (handleDeleteModel_settled modelId owner (Inr ()) s) ! i)"
proof -
  let ?s' = "handleDeleteModel_settled modelId owner (Inr ()) s"
  have m: "models ?s' = filter (\<lambda>item. m_id item \<noteq> modelId) (models s)"
    by (simp add: handleDeleteModel_settled_def setProjects_def setModels_def setModel_def
        listener_def queueSave_def setTimeout_def clearTimeout_def Let_def split: option.splits)
  have r: "requests ?s' = requests s"
    by (simp add: handleDeleteModel_settled_def setProjects_def setModels_def setModel_def
        listener_def queueSave_def setTimeout_def clearTimeout_def Let_def split: option.splits)
  have p0: "projects ?s' =
      (if truthy_id owner
       then map (\<lambda>item. if Some (p_id item) = owner
                   then item\<lparr>modelCount := max 0 (modelCount item - 1)\<rparr> else item) (projects s)
       else projects s)"
    by (simp add: handleDeleteModel_settled_def setProjects_def setModels_def setModel_def
        listener_def queueSave_def setTimeout_def clearTimeout_def Let_def split: option.splits)
  have p: "projects ?s' =
        (case find (\<lambda>item. m_id item = modelId) (models s) of
           None \<Rightarrow> projects s
         | Some m \<Rightarrow>
             map (\<lambda>item. if p_id item = m_projectId m
                    then item\<lparr>modelCount := max 0 (modelCount item - 1)\<rparr> else item)
               (projects s))"
  proof (cases "find (\<lambda>item. m_id item = modelId) (models s)")
    case None
    show ?thesis unfolding p0 using assms(3) None by (simp add: truthy_id_def)
  next
    case (Some m0)
    then have "m0 \<in> set (models s)" by (auto simp: find_Some_iff)
    with assms(2) have "m_projectId m0 \<noteq> []" by blast
    then show ?thesis unfolding p0 using assms(3) Some by (simp add: truthy_id_def)
  qed
  show "models ?s' = filter (\<lambda>item. m_id item \<noteq> modelId) (models s)" by (rule m)
  show "requests ?s' = requests s" by (rule r)
  show "projects ?s' =
        (case find (\<lambda>item. m_id item = modelId) (models s) of
           None \<Rightarrow> projects s
         | Some m \<Rightarrow>
             map (\<lambda>item. if p_id item = m_projectId m
                    then item\<lparr>modelCount := max 0 (modelCount item - 1)\<rparr> else item)
               (projects s))" by (rule p)
  show "\<forall>i < length (projects s). count_ok (models s) (projects s ! i) \<longrightarrow>
          count_ok (models ?s') (projects ?s' ! i)"
  proof (intro allI impI)
    fix i
    assume i: "i < length (projects s)" and ok: "count_ok (models s) (projects s ! i)"
    show "count_ok (models ?s') (projects ?s' ! i)"
    proof (cases "find (\<lambda>item. m_id item = modelId) (models s)")
      case None
      then show ?thesis
        unfolding m p using ok filter_without_absent[OF None] by simp
    next
      case (Some m0)
      show ?thesis
        unfolding m p using count_ok_delete[OF assms(1) Some ok] i Some by simp
    qed
  qed
qed

text \<open>
  Claim C7, amended. A successful \<open>createModel\<close> issues the create request and no
  other, puts the new model in front of the cached models and adds one to the count of
  the projects with the target id. A successful \<open>deleteModel\<close>, called from a render
  that saw the current model listing (the handler looks the owner up in the listing of its
  render, before the request), issues the delete request and no other, removes the model
  from the cache and sets the count of the project the model belonged to to
  \<open>max 0 (count - 1)\<close>. Every cached project whose count equalled the number of its
  cached models before still has that property after; for the delete the cached models
  have distinct ids and non-empty project ids, as the keys of the server are.
\<close>

theorem modelCount_adjusted_locally:
  "(rendered s \<noteq> None \<and> m_projectId model = projectId \<longrightarrow>
      models (created projectId pl model s) = model # models s
    \<and> requests (created projectId pl model s) = requests s @ [CreateModel projectId pl]
    \<and> projects (created projectId pl model s) =
        map (\<lambda>item. if p_id item = projectId
               then item\<lparr>modelCount := modelCount item + 1\<rparr> else item) (projects s)
    \<and> (\<forall>i < length (projects s). count_ok (models s) (projects s ! i) \<longrightarrow>
          count_ok (models (created projectId pl model s))
            (projects (created projectId pl model s) ! i)))
 \<and> (rendered s = Some c \<and> r_models c = models s
      \<and> distinct (map m_id (models s)) \<and> (\<forall>m \<in> set (models s). m_projectId m \<noteq> []) \<longrightarrow>
      suspended (step (Call_deleteModel modelId) s) =
        suspended s @ [PDeleteModel modelId
          (map_option m_projectId (find (\<lambda>item. m_id item = modelId) (models s)))]
    \<and> models (deleted modelId s) = filter (\<lambda>item. m_id item \<noteq> modelId) (models s)
    \<and> requests (deleted modelId s) = requests s @ [DeleteModel modelId]
    \<and> projects (deleted modelId s) =
        (case find (\<lambda>item. m_id item = modelId) (models s) of
           None \<Rightarrow> projects s
         | Some m \<Rightarrow>
             map (\<lambda>item. if p_id item = m_projectId m
                    then item\<lparr>modelCount := max 0 (modelCount item - 1)\<rparr> else item)
               (projects s))
    \<and> (\<forall>i < length (projects s). count_ok (models s) (projects s ! i) \<longrightarrow>
          count_ok (models (deleted modelId s)) (projects (deleted modelId s) ! i)))"
proof (intro conjI impI)
  assume a: "rendered s \<noteq> None \<and> m_projectId model = projectId"
  let ?s1 = "s\<lparr>error := None, requests := requests s @ [CreateModel projectId pl]\<rparr>"
  have e: "created projectId pl model s = handleCreateModel_settled projectId (Inr model) ?s1"
    using a by (simp add: created_eq)
  have mp: "m_projectId model = projectId" using a by simp
  note c = create_settled_counts[OF mp, of ?s1]
  show "models (created projectId pl model s) = model # models s"
    unfolding e using c(1) by simp
  show "requests (created projectId pl model s) = requests s @ [CreateModel projectId pl]"
    unfolding e using c(2) by simp
  show "projects (created projectId pl model s) =
        map (\<lambda>item. if p_id item = projectId
               then item\<lparr>modelCount := modelCount item + 1\<rparr> else item) (projects s)"
    unfolding e using c(3) by simp
  show "\<forall>i < length (projects s). count_ok (models s) (projects s ! i) \<longrightarrow>
          count_ok (models (created projectId pl model s))
            (projects (created projectId pl model s) ! i)"
    unfolding e using c(4) by simp
next
  assume a: "rendered s = Some c \<and> r_models c = models s
      \<and> distinct (map m_id (models s)) \<and> (\<forall>m \<in> set (models s). m_projectId m \<noteq> [])"
  let ?owner = "map_option m_projectId (find (\<lambda>item. m_id item = modelId) (models s))"
  let ?s1 = "s\<lparr>error := None, requests := requests s @ [DeleteModel modelId]\<rparr>"
  have e: "deleted modelId s = handleDeleteModel_settled modelId ?owner (Inr ()) ?s1"
    using a by (simp add: deleted_eq)
  have d: "distinct (map m_id (models ?s1))" "\<forall>m \<in> set (models ?s1). m_projectId m \<noteq> []"
    "?owner = map_option m_projectId (find (\<lambda>item. m_id item = modelId) (models ?s1))"
    using a by simp_all
  note c = delete_settled_counts[OF d]
  show "suspended (step (Call_deleteModel modelId) s) =
        suspended s @ [PDeleteModel modelId ?owner]"
    using a by (simp add: called_def handleDeleteModel_def Let_def)
  show "models (deleted modelId s) = filter (\<lambda>item. m_id item \<noteq> modelId) (models s)"
    unfolding e using c(1) by simp
  show "requests (deleted modelId s) = requests s @ [DeleteModel modelId]"
    unfolding e using c(2) by simp
  show "projects (deleted modelId s) =
        (case find (\<lambda>item. m_id item = modelId) (models s) of
           None \<Rightarrow> projects s
         | Some m \<Rightarrow>
             map (\<lambda>item. if p_id item = m_projectId m
                    then item\<lparr>modelCount := max 0 (modelCount item - 1)\<rparr> else item)
               (projects s))"
    unfolding e using c(3) by (simp split: option.splits)
  show "\<forall>i < length (projects s). count_ok (models s) (projects s ! i) \<longrightarrow>
          count_ok (models (deleted modelId s)) (projects (deleted modelId s) ! i)"
    unfolding e using c(4) by simp
qed
theorem modelCount_adjusted_locally_witness:
  "count_ok (models shown_after_create) (projects shown_after_create ! 0)
   \<and> map modelCount (projects (created ''A'' create_pl model_A2 shown_after_create)) = [2, 2]
   \<and> count_ok (models (created ''A'' create_pl model_A2 shown_after_create))
        (projects (created ''A'' create_pl model_A2 shown_after_create) ! 0)
   \<and> suspended (step (Call_deleteModel ''a1'') shown_after_create) =
        suspended shown_after_create @ [PDeleteModel ''a1'' (Some ''A'')]
   \<and> models (deleted ''a1'' shown_after_create) = []
   \<and> map modelCount (projects (deleted ''a1'' shown_after_create)) = [0, 2]
   \<and> count_ok (models (deleted ''a1'' shown_after_create))
        (projects (deleted ''a1'' shown_after_create) ! 0)"
proof -
  have a: "rendered shown_after_create \<noteq> None" "m_projectId model_A2 = ''A''"
    "rendered shown_after_create = Some (closure_of after_create_A)"
    "r_models (closure_of after_create_A) = models shown_after_create"
    "distinct (map m_id (models shown_after_create))"
    "\<forall>m \<in> set (models shown_after_create). m_projectId m \<noteq> []"
    by code_simp+
  have b: "0 < length (projects shown_after_create)"
    "count_ok (models shown_after_create) (projects shown_after_create ! 0)"
    "map_option m_projectId (find (\<lambda>item. m_id item = ''a1'') (models shown_after_create)) =
       Some ''A''"
    by code_simp+
  have c: "map modelCount (projects (created ''A'' create_pl model_A2 shown_after_create)) = [2, 2]"
    "map modelCount (projects (deleted ''a1'' shown_after_create)) = [0, 2]"
    "models (deleted ''a1'' shown_after_create) = []"
    by code_simp+
  note t = modelCount_adjusted_locally[of shown_after_create model_A2 "''A''" create_pl
      "closure_of after_create_A" "''a1''"]
  have k1: "count_ok (models (created ''A'' create_pl model_A2 shown_after_create))
      (projects (created ''A'' create_pl model_A2 shown_after_create) ! 0)"
    using t a(1,2) b(1,2) by blast
  have su: "suspended (step (Call_deleteModel ''a1'') shown_after_create) =
      suspended shown_after_create @ [PDeleteModel ''a1''
        (map_option m_projectId (find (\<lambda>item. m_id item = ''a1'') (models shown_after_create)))]"
    using t a(3-6) by blast
  have k2: "suspended (step (Call_deleteModel ''a1'') shown_after_create) =
      suspended shown_after_create @ [PDeleteModel ''a1'' (Some ''A'')]"
    using su unfolding b(3) .
  have k3: "count_ok (models (deleted ''a1'' shown_after_create))
      (projects (deleted ''a1'' shown_after_create) ! 0)"
    using t a(3-6) b(1,2) by blast
  show ?thesis
    using b(2) c k1 k2 k3 by blast
qed


lemma setModel_fields:
  "store (setModel m s) = m"
  "activeProjectId (setModel m s) = activeProjectId s"
  "activeModelId (setModel m s) = activeModelId s"
  "models (setModel m s) = models s"
  "projects (setModel m s) = projects s"
  "requests (setModel m s) = requests s"
  "suspended (setModel m s) = suspended s"
  "saveStatus (setModel m s) = saveStatus s"
  by (simp_all add: setModel_def listener_def queueSave_def setTimeout_def clearTimeout_def
      Let_def split: option.splits)

text \<open>
  Claim C5, amended. The projects effect, run while the listing is not loading and with
  the project ref equal to the active id: an empty listing makes the active project and
  model null and resets the store; otherwise the active project is one of the listing, the
  first one when none was active or the previous id is absent. The models effect, run
  while the model listing is not loading and a project is active, does the same for the
  active model. While the listing is loading (for models also while no project is active)
  the effect returns without changing anything.
\<close>

theorem reconciliation_repairs_selection:
  "(\<not> r_isLoadingProjects c \<and> activeProjectIdRef s = activeProjectId s \<longrightarrow>
      (r_projects c = [] \<longrightarrow>
          activeProjectId (reconcile_projects c s) = None
        \<and> activeModelId (reconcile_projects c s) = None
        \<and> store (reconcile_projects c s) = createEmptyModel)
    \<and> (r_projects c \<noteq> [] \<longrightarrow>
          activeProjectId (reconcile_projects c s) \<in> Some ` p_id ` set (r_projects c)
        \<and> (activeProjectId s = None \<or> activeProjectId s \<notin> Some ` p_id ` set (r_projects c) \<longrightarrow>
             activeProjectId (reconcile_projects c s) = Some (p_id (hd (r_projects c))))))
 \<and> (\<not> r_isLoadingModels c \<and> truthy_id (r_activeProjectId c)
      \<and> activeModelIdRef s = activeModelId s \<longrightarrow>
      (r_models c = [] \<longrightarrow>
          activeModelId (reconcile_models c s) = None
        \<and> store (reconcile_models c s) = createEmptyModel)
    \<and> (r_models c \<noteq> [] \<longrightarrow>
          activeModelId (reconcile_models c s) \<in> Some ` m_id ` set (r_models c)
        \<and> (activeModelId s = None \<or> activeModelId s \<notin> Some ` m_id ` set (r_models c) \<longrightarrow>
             activeModelId (reconcile_models c s) = Some (m_id (hd (r_models c))))))
 \<and> (r_isLoadingProjects c \<longrightarrow> reconcile_projects c s = s)
 \<and> (r_isLoadingModels c \<or> \<not> truthy_id (r_activeProjectId c) \<longrightarrow> reconcile_models c s = s)"
proof -
  have rules:
    "(\<not> r_isLoadingProjects c \<and> activeProjectIdRef s = activeProjectId s \<longrightarrow>
          (r_projects c = [] \<longrightarrow>
              activeProjectId (reconcile_projects c s) = None
            \<and> activeModelId (reconcile_projects c s) = None
            \<and> store (reconcile_projects c s) = createEmptyModel)
        \<and> (r_projects c \<noteq> [] \<longrightarrow>
              activeProjectId (reconcile_projects c s) \<in> Some ` p_id ` set (r_projects c)
            \<and> (activeProjectId s = None \<or> activeProjectId s \<notin> Some ` p_id ` set (r_projects c) \<longrightarrow>
                 activeProjectId (reconcile_projects c s) = Some (p_id (hd (r_projects c))))))
     \<and> (\<not> r_isLoadingModels c \<and> truthy_id (r_activeProjectId c)
          \<and> activeModelIdRef s = activeModelId s \<longrightarrow>
          (r_models c = [] \<longrightarrow>
              activeModelId (reconcile_models c s) = None
            \<and> store (reconcile_models c s) = createEmptyModel)
        \<and> (r_models c \<noteq> [] \<longrightarrow>
              activeModelId (reconcile_models c s) \<in> Some ` m_id ` set (r_models c)
            \<and> (activeModelId s = None \<or> activeModelId s \<notin> Some ` m_id ` set (r_models c) \<longrightarrow>
                 activeModelId (reconcile_models c s) = Some (m_id (hd (r_models c))))))"
  proof -
    have pe: "r_projects c = [] \<Longrightarrow> reconcile_projects c s =
        setModel createEmptyModel (s\<lparr>activeProjectId := None, activeModelId := None\<rparr>)"
      if "\<not> r_isLoadingProjects c"
      using that by (simp add: reconcile_projects_def)
    have pn: "activeProjectId (reconcile_projects c s) =
        (if \<not> truthy_id (activeProjectId s)
            \<or> find (\<lambda>item. Some (p_id item) = activeProjectId s) (r_projects c) = None
         then Some (p_id (hd (r_projects c))) else activeProjectId s)"
      if "\<not> r_isLoadingProjects c" "activeProjectIdRef s = activeProjectId s" "r_projects c \<noteq> []"
      using that by (cases "r_projects c") (simp_all add: reconcile_projects_def)
    have me: "r_models c = [] \<Longrightarrow> reconcile_models c s =
        setModel createEmptyModel (s\<lparr>activeModelId := None\<rparr>)"
      if "\<not> r_isLoadingModels c" "truthy_id (r_activeProjectId c)"
      using that by (simp add: reconcile_models_def)
    have mn: "activeModelId (reconcile_models c s) =
        (if \<not> truthy_id (activeModelId s)
            \<or> find (\<lambda>item. Some (m_id item) = activeModelId s) (r_models c) = None
         then Some (m_id (hd (r_models c))) else activeModelId s)"
      if "\<not> r_isLoadingModels c" "truthy_id (r_activeProjectId c)"
        "activeModelIdRef s = activeModelId s" "r_models c \<noteq> []"
      using that by (cases "r_models c") (simp_all add: reconcile_models_def)
    have fp: "find (\<lambda>item. Some (p_id item) = x) ps = None \<longleftrightarrow> x \<notin> Some ` p_id ` set ps"
      for x and ps :: "ProjectSummary list"
      by (auto simp: find_None_iff image_iff)
    have fm: "find (\<lambda>item. Some (m_id item) = x) ms = None \<longleftrightarrow> x \<notin> Some ` m_id ` set ms"
      for x and ms :: "ModelSummary list"
      by (auto simp: find_None_iff image_iff)
    show ?thesis
    proof (intro conjI impI)
      assume h: "\<not> r_isLoadingProjects c \<and> activeProjectIdRef s = activeProjectId s"
      {
        assume e: "r_projects c = []"
        show "activeProjectId (reconcile_projects c s) = None"
          "activeModelId (reconcile_projects c s) = None"
          "store (reconcile_projects c s) = createEmptyModel"
          using h e by (simp_all add: pe setModel_fields)
      }
      {
        assume n: "r_projects c \<noteq> []"
        then have hd: "Some (p_id (hd (r_projects c))) \<in> Some ` p_id ` set (r_projects c)"
          by simp
        show "activeProjectId (reconcile_projects c s) \<in> Some ` p_id ` set (r_projects c)"
          using h n hd by (simp add: pn fp)
        assume "activeProjectId s = None \<or> activeProjectId s \<notin> Some ` p_id ` set (r_projects c)"
        then show "activeProjectId (reconcile_projects c s) = Some (p_id (hd (r_projects c)))"
          using h n by (auto simp: pn fp truthy_id_def)
      }
    next
      assume h: "\<not> r_isLoadingModels c \<and> truthy_id (r_activeProjectId c)
        \<and> activeModelIdRef s = activeModelId s"
      {
        assume e: "r_models c = []"
        show "activeModelId (reconcile_models c s) = None"
          "store (reconcile_models c s) = createEmptyModel"
          using h e by (simp_all add: me setModel_fields)
      }
      {
        assume n: "r_models c \<noteq> []"
        then have hd: "Some (m_id (hd (r_models c))) \<in> Some ` m_id ` set (r_models c)"
          by simp
        show "activeModelId (reconcile_models c s) \<in> Some ` m_id ` set (r_models c)"
          using h n hd by (simp add: mn fm)
        assume "activeModelId s = None \<or> activeModelId s \<notin> Some ` m_id ` set (r_models c)"
        then show "activeModelId (reconcile_models c s) = Some (m_id (hd (r_models c)))"
          using h n by (auto simp: mn fm truthy_id_def)
      }
    qed
  qed
  have guards: "r_isLoadingProjects c \<longrightarrow> reconcile_projects c s = s"
    "r_isLoadingModels c \<or> \<not> truthy_id (r_activeProjectId c) \<longrightarrow> reconcile_models c s = s"
    by (simp_all add: reconcile_projects_def reconcile_models_def)
  show ?thesis using rules guards by blast
qed

lemma same_sync_trans: "same_sync s s' \<Longrightarrow> same_sync s' s'' \<Longrightarrow> same_sync s s''"
  by (simp add: same_sync_def)

lemma same_sync_inv: "same_sync s s' \<Longrightarrow> sync_inv s' = sync_inv s"
  by (simp add: same_sync_def sync_inv_def timer_ok_def list_all_iff)

lemma same_sync_render_inv: "same_sync s s' \<Longrightarrow> render_inv s' = render_inv s"
  by (simp add: same_sync_def render_inv_def split: option.splits)

lemma load_tokens_append: "load_tokens (xs @ ys) = load_tokens xs @ load_tokens ys"
  by (induction xs rule: load_tokens.induct) simp_all

lemma same_sync_resume: "same_sync s (resume k s)"
  by (cases k) (simp_all add: same_sync_def setModels_def)

lemma same_sync_saveModelNow: "same_sync s (saveModelNow m k s)"
  using same_sync_resume[of s k]
  by (simp add: saveModelNow_def same_sync_def load_tokens_append split: option.splits)

lemma same_sync_saveModelNow_settled: "same_sync s (saveModelNow_settled r k s)"
proof -
  have "same_sync s (case r of Inl msg \<Rightarrow> s\<lparr>saveStatus := Error, error := Some msg\<rparr>
      | Inr now \<Rightarrow> s\<lparr>saveStatus := Idle, lastSavedAt := Some now\<rparr>)"
    by (cases r) (simp_all add: same_sync_def)
  then show ?thesis
    unfolding saveModelNow_settled_def by (rule same_sync_trans) (rule same_sync_resume)
qed

lemma same_sync_simple:
  "same_sync s (refreshProjects s)"
  "same_sync s (refreshProjects_settled rp s)"
  "same_sync s (refreshModels pid s)"
  "same_sync s (refreshModels_settled rm s)"
  "same_sync s (handleCreateProject pl s)"
  "same_sync s (handleCreateProject_settled rcp s)"
  "same_sync s (handleUpdateProject pid' pl s)"
  "same_sync s (handleUpdateProject_settled rup s)"
  "same_sync s (handleDeleteProject pid' s)"
  "same_sync s (handleCreateModel pid' pl s)"
  "same_sync s (handleCreateModel_settled pid' rcm s)"
  "same_sync s (handleUpdateModel mid pl s)"
  "same_sync s (handleUpdateModel_settled rum s)"
  "same_sync s (handleDeleteModel mid s)"
  "same_sync s (setProjects ps s)"
  "same_sync s (setModels ms s)"
  "same_sync s (sync_project_ref c s)"
  "same_sync s (persist_selection c s)"
  "same_sync s (idle_effect c s)"
  by (simp_all add: same_sync_def refreshProjects_def refreshProjects_settled_def
      refreshModels_def refreshModels_settled_def handleCreateProject_def
      handleCreateProject_settled_def handleUpdateProject_def handleUpdateProject_settled_def
      handleDeleteProject_def handleCreateModel_def handleCreateModel_settled_def
      handleUpdateModel_def handleUpdateModel_settled_def handleDeleteModel_def
      setProjects_def setModels_def sync_project_ref_def persist_selection_def idle_effect_def
      load_tokens_append Let_def split: sum.splits option.splits)

lemma inv_no_handle_no_timer:
  assumes "sync_inv s" "\<not> truthy_handle (saveTimeoutRef s)"
  shows "timers s = []"
proof (cases "timers s")
  case Nil
  then show ?thesis .
next
  case (Cons t ts)
  with assms show ?thesis
    by (auto simp: sync_inv_def timer_ok_def truthy_handle_def)
qed

lemma inv_handle_clears:
  assumes "sync_inv s" "saveTimeoutRef s = Some h"
  shows "filter (\<lambda>t. t_id t \<noteq> h) (timers s) = []"
  using assms by (auto simp: sync_inv_def timer_ok_def list_all_iff filter_empty_conv)

lemma inv_timers_tracked: "sync_inv s \<Longrightarrow> timers_tracked s"
  by (simp add: sync_inv_def timers_tracked_def timer_ok_def list_all_iff)

lemma setModel_inv_cases:
  assumes "sync_inv s"
  shows "setModel m s =
    (if subscribed s \<and> \<not> isHydratingRef s \<and> truthy_id (activeModelIdRef s)
     then s\<lparr>store := m,
            timers := [\<lparr>t_id = nextTimerId s, t_delay = 600, t_snapshot = m\<rparr>],
            nextTimerId := Suc (nextTimerId s), saveTimeoutRef := Some (nextTimerId s)\<rparr>
     else s\<lparr>store := m\<rparr>)"
proof -
  have i: "sync_inv (s\<lparr>store := m\<rparr>) \<or> timers s \<noteq> []"
    using assms by (cases "timers s") (simp_all add: sync_inv_def)
  show ?thesis
  proof (cases "subscribed s \<and> \<not> isHydratingRef s \<and> truthy_id (activeModelIdRef s)")
    case True
    have q: "queueSave m (s\<lparr>store := m\<rparr>) =
      s\<lparr>store := m,
        timers := [\<lparr>t_id = nextTimerId s, t_delay = 600, t_snapshot = m\<rparr>],
        nextTimerId := Suc (nextTimerId s), saveTimeoutRef := Some (nextTimerId s)\<rparr>"
    proof (cases "saveTimeoutRef s")
      case None
      then have "timers s = []"
        using inv_no_handle_no_timer[OF assms] by (simp add: truthy_handle_def)
      with None True show ?thesis by (simp add: queueSave_def setTimeout_def Let_def)
    next
      case (Some h)
      show ?thesis
      proof (cases "h = 0")
        case z: True
        then have "timers s = []"
          using inv_no_handle_no_timer[OF assms] Some by (simp add: truthy_handle_def)
        with Some z True show ?thesis by (simp add: queueSave_def setTimeout_def Let_def)
      next
        case False
        with Some True inv_handle_clears[OF assms Some] show ?thesis
          by (simp add: queueSave_def setTimeout_def clearTimeout_def Let_def)
      qed
    qed
    show ?thesis using True q by (simp add: setModel_def listener_def Let_def)
  next
    case False
    then show ?thesis by (auto simp: setModel_def listener_def queueSave_def Let_def)
  qed
qed

lemma setModel_keeps:
  "activeModelIdRef (setModel m s) = activeModelIdRef s"
  "isHydratingRef (setModel m s) = isHydratingRef s"
  "subscribed (setModel m s) = subscribed s"
  "suspended (setModel m s) = suspended s"
  "loadTokenRef (setModel m s) = loadTokenRef s"
  "rendered (setModel m s) = rendered s"
  by (simp_all add: setModel_def listener_def queueSave_def setTimeout_def clearTimeout_def
      Let_def split: option.splits)

lemma sync_inv_setModel:
  assumes "sync_inv s"
  shows "sync_inv (setModel m s)"
proof (cases "subscribed s \<and> \<not> isHydratingRef s \<and> truthy_id (activeModelIdRef s)")
  case True
  then have e: "setModel m s = s\<lparr>store := m,
      timers := [\<lparr>t_id = nextTimerId s, t_delay = 600, t_snapshot = m\<rparr>],
      nextTimerId := Suc (nextTimerId s), saveTimeoutRef := Some (nextTimerId s)\<rparr>"
    using setModel_inv_cases[OF assms, of m] by simp
  show ?thesis
    unfolding e using assms True by (simp add: sync_inv_def timer_ok_def)
next
  case False
  then have e: "setModel m s = s\<lparr>store := m\<rparr>"
    using setModel_inv_cases[OF assms, of m] by auto
  from False have "timers s = []" using assms by (auto simp: sync_inv_def)
  then show ?thesis
    unfolding e using assms by (simp add: sync_inv_def)
qed

lemma saveCurrentModel_inv_cases:
  assumes "sync_inv s"
  shows "saveCurrentModel k s =
    (let s1 = (if truthy_handle (saveTimeoutRef s) then s\<lparr>timers := [], saveTimeoutRef := None\<rparr> else s)
     in if \<not> truthy_id (activeModelIdRef s) then resume k s1 else saveModelNow (store s) k s1)"
proof (cases "saveTimeoutRef s")
  case None
  then show ?thesis by (simp add: saveCurrentModel_def truthy_handle_def Let_def)
next
  case (Some h)
  show ?thesis
  proof (cases "h = 0")
    case True
    with Some show ?thesis by (simp add: saveCurrentModel_def truthy_handle_def Let_def)
  next
    case False
    with Some inv_handle_clears[OF assms Some] show ?thesis
      by (simp add: saveCurrentModel_def truthy_handle_def Let_def clearTimeout_def)
  qed
qed

lemma sync_inv_drop_timers:
  "sync_inv s \<Longrightarrow> sync_inv (s\<lparr>timers := [], saveTimeoutRef := None\<rparr>)"
  by (simp add: sync_inv_def)

lemma saveCurrentModel_preserves:
  assumes "sync_inv s"
  shows "sync_inv (saveCurrentModel k s)" "render_inv (saveCurrentModel k s) = render_inv s"
    "timers (saveCurrentModel k s) = []"
proof -
  let ?s1 = "if truthy_handle (saveTimeoutRef s) then s\<lparr>timers := [], saveTimeoutRef := None\<rparr> else s"
  have t1: "timers ?s1 = []"
    using inv_no_handle_no_timer[OF assms] by simp
  have i1: "sync_inv ?s1" using assms sync_inv_drop_timers by simp
  have r1: "render_inv ?s1 = render_inv s" by (simp add: render_inv_def split: option.splits)
  have e: "saveCurrentModel k s =
      (if \<not> truthy_id (activeModelIdRef s) then resume k ?s1 else saveModelNow (store s) k ?s1)"
    using saveCurrentModel_inv_cases[OF assms] by (simp add: Let_def)
  have a: "same_sync ?s1 (resume k ?s1)" by (rule same_sync_resume)
  have b: "same_sync ?s1 (saveModelNow (store s) k ?s1)" by (rule same_sync_saveModelNow)
  show "sync_inv (saveCurrentModel k s)"
    unfolding e using i1 same_sync_inv[OF a] same_sync_inv[OF b] by simp
  show "render_inv (saveCurrentModel k s) = render_inv s"
    unfolding e using r1 same_sync_render_inv[OF a] same_sync_render_inv[OF b] by simp
  show "timers (saveCurrentModel k s) = []"
    unfolding e using t1 a b by (simp add: same_sync_def)
qed

lemma preservedI:
  assumes "\<And>s. sync_inv s \<Longrightarrow> sync_inv (f s)" "\<And>s. rendered (f s) = rendered s"
    "\<And>s. subscribed (f s) = subscribed s" "\<And>s. activeModelIdRef (f s) = activeModelIdRef s"
  shows "preserved f"
  using assms by (simp add: preserved_def)

lemma preservedD:
  "preserved f \<Longrightarrow> sync_inv s \<Longrightarrow> sync_inv (f s)"
  "preserved f \<Longrightarrow> render_inv (f s) = render_inv s"
  "preserved f \<Longrightarrow> rendered (f s) = rendered s"
  "preserved f \<Longrightarrow> subscribed (f s) = subscribed s"
  "preserved f \<Longrightarrow> activeModelIdRef (f s) = activeModelIdRef s"
  by (simp_all add: preserved_def render_inv_def split: option.splits)

lemma preserved_same:
  assumes "\<And>s. same_sync s (f s)"
  shows "preserved f"
proof (rule preservedI)
  fix s
  show "rendered (f s) = rendered s" "subscribed (f s) = subscribed s"
    "activeModelIdRef (f s) = activeModelIdRef s"
    using assms[of s] by (simp_all add: same_sync_def)
  assume "sync_inv s"
  then show "sync_inv (f s)" using same_sync_inv[OF assms, of s] by simp
qed

lemma preserved_comp: "preserved f \<Longrightarrow> preserved g \<Longrightarrow> preserved (\<lambda>s. g (f s))"
  by (simp add: preserved_def)

lemma preserved_if: "preserved f \<Longrightarrow> preserved g \<Longrightarrow> preserved (\<lambda>s. if b s then f s else g s)"
  by (simp add: preserved_def)

lemma preserved_id: "preserved (\<lambda>s. s)"
  by (simp add: preserved_def)

lemma preserved_setModel: "preserved (setModel m)"
  by (simp add: preserved_def sync_inv_setModel setModel_keeps)

lemma render_fields_resume:
  "rendered (resume k s) = rendered s" "subscribed (resume k s) = subscribed s"
  "activeModelIdRef (resume k s) = activeModelIdRef s"
  by (cases k; simp add: setModels_def)+

lemma render_fields_saveModelNow:
  "rendered (saveModelNow m k s) = rendered s" "subscribed (saveModelNow m k s) = subscribed s"
  "activeModelIdRef (saveModelNow m k s) = activeModelIdRef s"
  by (simp_all add: saveModelNow_def render_fields_resume split: option.splits)

lemma preserved_saveCurrentModel: "preserved (saveCurrentModel k)"
proof (rule preservedI)
  fix s
  show "rendered (saveCurrentModel k s) = rendered s"
    "subscribed (saveCurrentModel k s) = subscribed s"
    "activeModelIdRef (saveCurrentModel k s) = activeModelIdRef s"
    by (simp_all add: saveCurrentModel_def Let_def clearTimeout_def
      render_fields_resume render_fields_saveModelNow split: option.splits)
  assume "sync_inv s"
  then show "sync_inv (saveCurrentModel k s)" by (rule saveCurrentModel_preserves(1))
qed

lemma preserved_select:
  "preserved (selectProject pid)" "preserved (selectModel mid)"
  unfolding selectProject_def selectModel_def
  by (rule preserved_if[OF preserved_id preserved_saveCurrentModel])+

lemma preserved_deleteProject_settled: "preserved (handleDeleteProject_settled pid r)"
proof (cases r)
  case (Inl msg)
  show ?thesis
    by (rule preserved_same) (simp add: Inl handleDeleteProject_settled_def same_sync_def)
next
  case (Inr u)
  let ?f1 = "\<lambda>s. setProjects (filter (\<lambda>item. p_id item \<noteq> pid) (projects s)) s"
  let ?f2 = "\<lambda>s. setModels [] (s\<lparr>activeProjectId := None, activeModelId := None\<rparr>)"
  have p1: "preserved ?f1" by (rule preserved_same) (simp add: same_sync_def setProjects_def)
  have p2: "preserved ?f2" by (rule preserved_same) (simp add: same_sync_def setModels_def)
  have p3: "preserved (\<lambda>s. setModel createEmptyModel (?f2 s))"
    by (rule preserved_comp[OF p2 preserved_setModel])
  have p4: "preserved (\<lambda>s. if activeProjectIdRef s = Some pid
      then setModel createEmptyModel (?f2 s) else s)"
    by (rule preserved_if[OF p3 preserved_id])
  have e: "handleDeleteProject_settled pid r =
      (\<lambda>s. (\<lambda>s1. if activeProjectIdRef s1 = Some pid
         then setModel createEmptyModel (?f2 s1) else s1) (?f1 s))"
    by (rule ext) (simp add: Inr handleDeleteProject_settled_def Let_def)
  show ?thesis unfolding e by (rule preserved_comp[OF p1 p4])
qed

lemma preserved_deleteModel_settled: "preserved (handleDeleteModel_settled mid owner r)"
proof (cases r)
  case (Inl msg)
  show ?thesis
    by (rule preserved_same) (simp add: Inl handleDeleteModel_settled_def same_sync_def)
next
  case (Inr u)
  let ?f1 = "\<lambda>s. setModels (filter (\<lambda>item. m_id item \<noteq> mid) (models s)) s"
  let ?f2 = "\<lambda>s1. if truthy_id owner
       then setProjects
              (map (\<lambda>item. if Some (p_id item) = owner
                      then item\<lparr>modelCount := max 0 (modelCount item - 1)\<rparr>
                      else item) (projects s1)) s1
       else s1"
  let ?f3 = "\<lambda>s2. if activeModelIdRef s2 = Some mid
       then setModel createEmptyModel (s2\<lparr>activeModelId := None\<rparr>) else s2"
  have p1: "preserved ?f1" by (rule preserved_same) (simp add: same_sync_def setModels_def)
  have p2: "preserved ?f2" by (rule preserved_same) (simp add: same_sync_def setProjects_def)
  have p3a: "preserved (\<lambda>s. s\<lparr>activeModelId := None\<rparr>)"
    by (rule preserved_same) (simp add: same_sync_def)
  have p3: "preserved ?f3"
    by (rule preserved_if[OF preserved_comp[OF p3a preserved_setModel] preserved_id])
  have e: "handleDeleteModel_settled mid owner r = (\<lambda>s. ?f3 (?f2 (?f1 s)))"
    by (rule ext) (simp add: Inr handleDeleteModel_settled_def Let_def)
  show ?thesis unfolding e by (rule preserved_comp[OF preserved_comp[OF p1 p2] p3])
qed

lemma preserved_simple:
  "preserved refreshProjects"
  "preserved (refreshProjects_settled rp)"
  "preserved (refreshModels pid)"
  "preserved (refreshModels_settled rm)"
  "preserved (handleCreateProject pl)"
  "preserved (handleCreateProject_settled rcp)"
  "preserved (handleUpdateProject pid' pl)"
  "preserved (handleUpdateProject_settled rup)"
  "preserved (handleDeleteProject pid')"
  "preserved (handleCreateModel pid' pl)"
  "preserved (handleCreateModel_settled pid' rcm)"
  "preserved (handleUpdateModel mid pl)"
  "preserved (handleUpdateModel_settled rum)"
  "preserved (handleDeleteModel mid)"
  "preserved (saveModelNow_settled rs k)"
  "preserved (saveModelNow m k)"
  by (rule preserved_same, rule same_sync_simple same_sync_saveModelNow_settled
      same_sync_saveModelNow)+

lemma preserved_called: "preserved f \<Longrightarrow> preserved (called f)"
  unfolding called_def by (rule preserved_if[OF preserved_id])

lemma preserved_fire: "preserved (fire h)"
proof (rule preservedI)
  fix s
  show "rendered (fire h s) = rendered s" "subscribed (fire h s) = subscribed s"
    "activeModelIdRef (fire h s) = activeModelIdRef s"
    by (simp_all add: fire_def clearTimeout_def render_fields_saveModelNow split: option.splits)
  assume i: "sync_inv s"
  show "sync_inv (fire h s)"
  proof (cases "find (\<lambda>t. t_id t = h) (timers s)")
    case None
    with i show ?thesis by (simp add: fire_def)
  next
    case (Some t)
    then have "t \<in> set (timers s)" "t_id t = h" by (auto simp: find_Some_iff)
    then have "saveTimeoutRef s = Some h" using i by (auto simp: sync_inv_def timer_ok_def list_all_iff)
    from inv_handle_clears[OF i this] have c: "clearTimeout h s = s\<lparr>timers := []\<rparr>"
      by (simp add: clearTimeout_def)
    have "sync_inv (s\<lparr>timers := []\<rparr>)" using i by (simp add: sync_inv_def)
    then show ?thesis
      using Some same_sync_inv[OF same_sync_saveModelNow] by (simp add: fire_def c)
  qed
qed

lemma load_tokens_split:
  assumes "i < length xs"
  shows "load_tokens xs =
    load_tokens (take i xs) @ load_tokens [xs ! i] @ load_tokens (drop (Suc i) xs)"
proof -
  have "xs = take i xs @ [xs ! i] @ drop (Suc i) xs"
    using assms by (simp add: id_take_nth_drop)
  then have "load_tokens xs = load_tokens (take i xs @ [xs ! i] @ drop (Suc i) xs)" by simp
  then show ?thesis by (simp only: load_tokens_append)
qed

lemma load_tokens_rest_other:
  assumes "i < length xs" "load_tokens [xs ! i] = []"
  shows "load_tokens (take i xs @ drop (Suc i) xs) = load_tokens xs"
  using load_tokens_split[OF assms(1)] assms(2) by (simp add: load_tokens_append)

lemma load_tokens_rest_load:
  assumes "i < length xs" "xs ! i = PFetchModel t"
  shows "\<exists>A B. load_tokens xs = A @ t # B \<and> load_tokens (take i xs @ drop (Suc i) xs) = A @ B"
  using load_tokens_split[OF assms(1)] assms(2)
  by (intro exI[of _ "load_tokens (take i xs)"] exI[of _ "load_tokens (drop (Suc i) xs)"])
     (simp add: load_tokens_append)

lemma preserved_loadModel_settled_stale:
  assumes "tok \<noteq> loadTokenRef s" "sync_inv s"
  shows "sync_inv (loadModel_settled tok r s)"
proof (cases r)
  case (Inl msg)
  have "same_sync s (s\<lparr>error := Some msg\<rparr>)" by (simp add: same_sync_def)
  from same_sync_inv[OF this] assms show ?thesis
    by (simp add: Inl loadModel_settled_def)
next
  case (Inr d)
  with assms show ?thesis by (simp add: loadModel_settled_def)
qed

lemma preserved_loadModel_settled_current:
  assumes "sync_inv s" "isHydratingRef s" "loadTokenRef s \<notin> set (load_tokens (suspended s))"
  shows "sync_inv (loadModel_settled (loadTokenRef s) r s)"
proof -
  have t: "timers s = []" using assms(1,2) by (auto simp: sync_inv_def)
  show ?thesis
  proof (cases r)
    case (Inl msg)
    then show ?thesis
      using assms t by (simp add: loadModel_settled_def sync_inv_def)
  next
    case (Inr d)
    then show ?thesis
      using assms t by (simp add: loadModel_settled_current sync_inv_def)
  qed
qed

lemma loadModel_settled_render_fields:
  "rendered (loadModel_settled tok r s) = rendered s"
  "subscribed (loadModel_settled tok r s) = subscribed s"
  "activeModelIdRef (loadModel_settled tok r s) = activeModelIdRef s"
  by (simp_all add: loadModel_settled_def Let_def setModel_keeps split: sum.splits)

lemma settle_load_preserves:
  assumes "sync_inv s" "i < length (suspended s)" "suspended s ! i = PFetchModel tok"
  shows "sync_inv (loadModel_settled tok r
    (s\<lparr>suspended := take i (suspended s) @ drop (Suc i) (suspended s)\<rparr>))"
proof -
  let ?s0 = "s\<lparr>suspended := take i (suspended s) @ drop (Suc i) (suspended s)\<rparr>"
  from load_tokens_rest_load[OF assms(2,3)] obtain A B where
    ab: "load_tokens (suspended s) = A @ tok # B" "load_tokens (suspended ?s0) = A @ B"
    by auto
  have i0: "sync_inv ?s0"
    using assms(1) ab by (auto simp: sync_inv_def timer_ok_def list_all_iff)
  show ?thesis
  proof (cases "tok = loadTokenRef s")
    case True
    have h: "isHydratingRef ?s0" using assms(1) ab(1) True by (simp add: sync_inv_def)
    have n: "loadTokenRef ?s0 \<notin> set (load_tokens (suspended ?s0))"
      using assms(1) ab True by (auto simp: sync_inv_def)
    from preserved_loadModel_settled_current[OF i0 h n, of r] True show ?thesis by simp
  next
    case False
    then have "tok \<noteq> loadTokenRef ?s0" by simp
    from preserved_loadModel_settled_stale[OF this i0] show ?thesis .
  qed
qed

lemma preserved_drop_other:
  assumes "i < length (suspended s)" "load_tokens [suspended s ! i] = []"
  shows "same_sync s (s\<lparr>suspended := take i (suspended s) @ drop (Suc i) (suspended s)\<rparr>)"
  using load_tokens_rest_other[OF assms] by (simp add: same_sync_def)

lemmas settled_sync =
  preserved_simple[THEN preservedD(1)] preserved_deleteProject_settled[THEN preservedD(1)]
  preserved_deleteModel_settled[THEN preservedD(1)]

lemmas settled_render =
  preserved_simple[THEN preservedD(2)] preserved_deleteProject_settled[THEN preservedD(2)]
  preserved_deleteModel_settled[THEN preservedD(2)]

lemma settle_other_preserves:
  assumes "sync_inv s" "render_inv s" "load_tokens [p] = []" "settle p r s = Some s'"
  shows "sync_inv s' \<and> render_inv s'"
  using assms
  by (cases p; cases r) (auto simp: settle_def settled_sync settled_render)

lemma settle_preserves:
  assumes "sync_inv s" "render_inv s" "i < length (suspended s)"
    "settle (suspended s ! i) r
       (s\<lparr>suspended := take i (suspended s) @ drop (Suc i) (suspended s)\<rparr>) = Some s'"
  shows "sync_inv s' \<and> render_inv s'"
proof (cases "\<exists>tok. suspended s ! i = PFetchModel tok")
  case True
  then obtain tok where p: "suspended s ! i = PFetchModel tok" by blast
  let ?s0 = "s\<lparr>suspended := take i (suspended s) @ drop (Suc i) (suspended s)\<rparr>"
  from assms(4) p obtain r' where s': "s' = loadModel_settled tok r' ?s0"
    by (auto simp: settle_def split: outcome.splits)
  have "render_inv s' = render_inv ?s0"
    unfolding s' by (simp add: render_inv_def loadModel_settled_render_fields split: option.splits)
  moreover have "render_inv ?s0 = render_inv s" by (simp add: render_inv_def split: option.splits)
  ultimately show ?thesis
    using settle_load_preserves[OF assms(1,3) p, of r'] assms(2) s' by simp
next
  case False
  let ?s0 = "s\<lparr>suspended := take i (suspended s) @ drop (Suc i) (suspended s)\<rparr>"
  from False have nl: "load_tokens [suspended s ! i] = []"
    by (cases "suspended s ! i") simp_all
  from preserved_drop_other[OF assms(3) this] have ss: "same_sync s ?s0" .
  have i0: "sync_inv ?s0" "render_inv ?s0"
    using assms(1,2) same_sync_inv[OF ss] same_sync_render_inv[OF ss] by simp_all
  show ?thesis
    by (rule settle_other_preserves[OF i0 nl assms(4)])
qed

lemma held_preserved: "preserved f \<Longrightarrow> held x b s \<Longrightarrow> held x b (f s)"
  by (simp add: held_def preserved_def)

lemma preserved_reconcile_projects: "preserved (reconcile_projects c)"
proof -
  have a: "preserved (\<lambda>s. s\<lparr>activeProjectId := v\<rparr>)" for v
    by (rule preserved_same) (simp add: same_sync_def)
  have b: "preserved (\<lambda>s. setModel createEmptyModel
      (s\<lparr>activeProjectId := None, activeModelId := None\<rparr>))"
    by (rule preserved_comp[OF _ preserved_setModel], rule preserved_same)
       (simp add: same_sync_def)
  show ?thesis
  proof (cases "r_projects c")
    case Nil
    have "reconcile_projects c = (\<lambda>s. if r_isLoadingProjects c then s
        else setModel createEmptyModel (s\<lparr>activeProjectId := None, activeModelId := None\<rparr>))"
      by (rule ext) (simp add: reconcile_projects_def Nil)
    then show ?thesis using preserved_if[OF preserved_id b] by simp
  next
    case (Cons first rest)
    have "reconcile_projects c = (\<lambda>s. if r_isLoadingProjects c
          \<or> (truthy_id (activeProjectIdRef s)
              \<and> find (\<lambda>item. Some (p_id item) = activeProjectIdRef s) (r_projects c) \<noteq> None)
        then s else s\<lparr>activeProjectId := Some (p_id first)\<rparr>)"
      by (rule ext) (auto simp: reconcile_projects_def Cons)
    then show ?thesis using preserved_if[OF preserved_id a] by simp
  qed
qed

lemma preserved_reconcile_models: "preserved (reconcile_models c)"
proof -
  have a: "preserved (\<lambda>s. s\<lparr>activeModelId := v\<rparr>)" for v
    by (rule preserved_same) (simp add: same_sync_def)
  have b: "preserved (\<lambda>s. setModel createEmptyModel (s\<lparr>activeModelId := None\<rparr>))"
    by (rule preserved_comp[OF a preserved_setModel])
  show ?thesis
  proof (cases "r_models c")
    case Nil
    have "reconcile_models c = (\<lambda>s. if r_isLoadingModels c \<or> \<not> truthy_id (r_activeProjectId c)
        then s else setModel createEmptyModel (s\<lparr>activeModelId := None\<rparr>))"
      by (rule ext) (simp add: reconcile_models_def Nil)
    then show ?thesis using preserved_if[OF preserved_id b] by simp
  next
    case (Cons first rest)
    have "reconcile_models c = (\<lambda>s. if (r_isLoadingModels c \<or> \<not> truthy_id (r_activeProjectId c))
          \<or> (truthy_id (activeModelIdRef s)
              \<and> find (\<lambda>item. Some (m_id item) = activeModelIdRef s) (r_models c) \<noteq> None)
        then s else s\<lparr>activeModelId := Some (m_id first)\<rparr>)"
      by (rule ext) (auto simp: reconcile_models_def Cons)
    then show ?thesis using preserved_if[OF preserved_id a] by simp
  qed
qed

lemma preserved_fetch_models_effect: "preserved (fetch_models_effect c)"
proof -
  have a: "preserved (\<lambda>s. (setModels [] s)\<lparr>activeModelId := None\<rparr>)"
    by (rule preserved_same) (simp add: same_sync_def setModels_def)
  have b: "preserved (\<lambda>s. setModel createEmptyModel ((setModels [] s)\<lparr>activeModelId := None\<rparr>))"
    by (rule preserved_comp[OF a preserved_setModel])
  have "fetch_models_effect c = (\<lambda>s. if \<not> truthy_id (r_activeProjectId c)
      then setModel createEmptyModel ((setModels [] s)\<lparr>activeModelId := None\<rparr>)
      else refreshModels (r_activeProjectId c) s)"
    by (rule ext) (simp add: fetch_models_effect_def)
  then show ?thesis using preserved_if[OF b preserved_simple(3)] by simp
qed

lemma preserved_effects_simple:
  "preserved (sync_project_ref c)" "preserved (persist_selection c)" "preserved (idle_effect c)"
  by (rule preserved_same, rule same_sync_simple)+

lemma held_unsub_no_timers: "held x False s \<Longrightarrow> timers s = []"
  by (auto simp: held_def sync_inv_def)

lemma held_sync_model_ref:
  assumes "held x False s"
  shows "held (r_activeModelId c) False (sync_model_ref c s)"
  using assms held_unsub_no_timers[OF assms]
  by (simp add: held_def sync_model_ref_def sync_inv_def)

lemma held_loadModel:
  assumes "held x False s"
  shows "held x False (loadModel m s)"
proof -
  have t: "timers s = []" by (rule held_unsub_no_timers[OF assms])
  have "\<forall>t \<in> set (load_tokens (suspended s)). t \<le> loadTokenRef s"
    using assms by (simp add: held_def sync_inv_def list_all_iff)
  then have "Suc (loadTokenRef s) \<notin> set (load_tokens (suspended s))" by auto
  then show ?thesis
    using assms t
    by (auto simp: held_def loadModel_def sync_inv_def Let_def load_tokens_append list_all_iff)
qed

lemma held_load_effect: "held x False s \<Longrightarrow> held x False (load_effect c s)"
  by (simp add: load_effect_def held_loadModel split: option.splits)

lemma held_subscribe_effect:
  "held x False s \<Longrightarrow> held x (truthy_id (r_activeModelId c)) (subscribe_effect c s)"
  by (auto simp: held_def subscribe_effect_def sync_inv_def timer_ok_def list_all_iff)

lemma held_subscribe_cleanup:
  assumes "sync_inv s"
  shows "held (activeModelIdRef s) False (subscribe_cleanup s)"
proof (cases "truthy_handle (saveTimeoutRef s)")
  case True
  then obtain h where h: "saveTimeoutRef s = Some h" "h \<noteq> 0"
    by (auto simp: truthy_handle_def split: option.splits)
  have "subscribe_cleanup s = s\<lparr>timers := [], saveTimeoutRef := None, subscribed := False\<rparr>"
    using h inv_handle_clears[OF assms h(1)] by (simp add: subscribe_cleanup_def clearTimeout_def)
  then show ?thesis using assms by (simp add: held_def sync_inv_def)
next
  case False
  then have e: "subscribe_cleanup s = s\<lparr>subscribed := False\<rparr>"
    by (auto simp: subscribe_cleanup_def truthy_handle_def split: option.splits)
  have "timers s = []" by (rule inv_no_handle_no_timer[OF assms False])
  then show ?thesis using assms by (simp add: e held_def sync_inv_def)
qed

lemma sync_inv_rendered: "sync_inv (s\<lparr>rendered := v\<rparr>) = sync_inv s"
  by (simp add: sync_inv_def timer_ok_def list_all_iff)

lemma render_preserves:
  assumes "sync_inv s" "render_inv s"
  shows "sync_inv (render s) \<and> render_inv (render s)"
proof -
  define c where "c = closure_of s"
  define old where "old = rendered s"
  define dP where "dP = changed old c r_activeProjectId"
  define dM where "dM = changed old c r_activeModelId"
  define s0 where "s0 = (case old of None \<Rightarrow> s
    | Some prev \<Rightarrow>
        if r_activeModelId prev \<noteq> r_activeModelId c \<and> truthy_id (r_activeModelId prev)
        then subscribe_cleanup s else s)"
  define s1 where "s1 = (if dP then sync_project_ref c s0 else s0)"
  define s2 where "s2 = (if dM then sync_model_ref c s1 else s1)"
  define s3 where "s3 = (if dP \<or> dM then persist_selection c s2 else s2)"
  define s4 where "s4 = (if old = None then refreshProjects s3 else s3)"
  define s5 where "s5 = (if changed old c r_projectsVer \<or> changed old c r_isLoadingProjects
    then reconcile_projects c s4 else s4)"
  define s6 where "s6 = (if dP then fetch_models_effect c s5 else s5)"
  define s7 where "s7 = (if changed old c r_modelsVer \<or> changed old c r_isLoadingModels \<or> dP
    then reconcile_models c s6 else s6)"
  define s8 where "s8 = (if dM then load_effect c s7 else s7)"
  define s9 where "s9 = (if dM then idle_effect c s8 else s8)"
  define s10 where "s10 = (if dM then subscribe_effect c s9 else s9)"
  have r: "render s = s10\<lparr>rendered := Some c\<rparr>"
    unfolding s10_def s9_def s8_def s7_def s6_def s5_def s4_def s3_def s2_def s1_def s0_def
      dP_def dM_def old_def c_def render_def effects_def run_effects_def Let_def
    by simp
  have step: "held x b (if g then f t else t)" if "preserved f" "held x b t" for x b g f t
    using that held_preserved by simp
  show ?thesis
  proof (cases dM)
    case True
    have h0: "held (activeModelIdRef s) False s0"
    proof (cases old)
      case None
      then have "\<not> subscribed s" using assms(2) by (simp add: render_inv_def old_def)
      then show ?thesis using assms(1) None by (simp add: s0_def held_def)
    next
      case (Some prev)
      then have ne: "r_activeModelId prev \<noteq> r_activeModelId c"
        using True by (simp add: dM_def changed_def)
      show ?thesis
      proof (cases "truthy_id (r_activeModelId prev)")
        case t: True
        then show ?thesis
          using Some ne held_subscribe_cleanup[OF assms(1)] by (simp add: s0_def)
      next
        case False
        then have "\<not> subscribed s"
          using assms(2) Some by (simp add: render_inv_def old_def)
        then show ?thesis using assms(1) Some False by (simp add: s0_def held_def)
      qed
    qed
    have h1: "held (activeModelIdRef s) False s1"
      unfolding s1_def by (rule step[OF preserved_effects_simple(1) h0])
    have h2: "held (r_activeModelId c) False s2"
      unfolding s2_def using True held_sync_model_ref[OF h1] by simp
    have h3: "held (r_activeModelId c) False s3"
      unfolding s3_def by (rule step[OF preserved_effects_simple(2) h2])
    have h4: "held (r_activeModelId c) False s4"
      unfolding s4_def by (rule step[OF preserved_simple(1) h3])
    have h5: "held (r_activeModelId c) False s5"
      unfolding s5_def by (rule step[OF preserved_reconcile_projects h4])
    have h6: "held (r_activeModelId c) False s6"
      unfolding s6_def by (rule step[OF preserved_fetch_models_effect h5])
    have h7: "held (r_activeModelId c) False s7"
      unfolding s7_def by (rule step[OF preserved_reconcile_models h6])
    have h8: "held (r_activeModelId c) False s8"
      unfolding s8_def using True held_load_effect[OF h7] by simp
    have h9: "held (r_activeModelId c) False s9"
      unfolding s9_def by (rule step[OF preserved_effects_simple(3) h8])
    have h10: "held (r_activeModelId c) (truthy_id (r_activeModelId c)) s10"
      unfolding s10_def using True held_subscribe_effect[OF h9] by simp
    show ?thesis
      unfolding r using h10 by (simp add: held_def sync_inv_rendered render_inv_def)
  next
    case False
    then obtain prev where prev: "old = Some prev" "r_activeModelId prev = r_activeModelId c"
      by (cases old) (simp_all add: dM_def changed_def)
    have e0: "s0 = s" using prev by (simp add: s0_def)
    have ri: "activeModelIdRef s = r_activeModelId c"
      "subscribed s = truthy_id (r_activeModelId c)"
      using assms(2) prev by (simp_all add: render_inv_def old_def)
    have h0: "held (r_activeModelId c) (truthy_id (r_activeModelId c)) s0"
      using assms(1) ri by (simp add: e0 held_def)
    have h1: "held (r_activeModelId c) (truthy_id (r_activeModelId c)) s1"
      unfolding s1_def by (rule step[OF preserved_effects_simple(1) h0])
    have h2: "held (r_activeModelId c) (truthy_id (r_activeModelId c)) s2"
      unfolding s2_def using False h1 by simp
    have h3: "held (r_activeModelId c) (truthy_id (r_activeModelId c)) s3"
      unfolding s3_def by (rule step[OF preserved_effects_simple(2) h2])
    have h4: "held (r_activeModelId c) (truthy_id (r_activeModelId c)) s4"
      unfolding s4_def by (rule step[OF preserved_simple(1) h3])
    have h5: "held (r_activeModelId c) (truthy_id (r_activeModelId c)) s5"
      unfolding s5_def by (rule step[OF preserved_reconcile_projects h4])
    have h6: "held (r_activeModelId c) (truthy_id (r_activeModelId c)) s6"
      unfolding s6_def by (rule step[OF preserved_fetch_models_effect h5])
    have h7: "held (r_activeModelId c) (truthy_id (r_activeModelId c)) s7"
      unfolding s7_def by (rule step[OF preserved_reconcile_models h6])
    have h10: "held (r_activeModelId c) (truthy_id (r_activeModelId c)) s10"
      unfolding s10_def s9_def s8_def using False h7 by simp
    show ?thesis
      unfolding r using h10 by (simp add: held_def sync_inv_rendered render_inv_def)
  qed
qed

lemma init_inv: "sync_inv (init lp lm m) \<and> render_inv (init lp lm m)"
  by (simp add: init_def sync_inv_def render_inv_def)

lemmas called_sync =
  preserved_simple[THEN preserved_called, THEN preservedD(1)]
  preserved_select[THEN preserved_called, THEN preservedD(1)]
  preserved_saveCurrentModel[THEN preserved_called, THEN preservedD(1)]

lemmas called_render =
  preserved_simple[THEN preserved_called, THEN preservedD(2)]
  preserved_select[THEN preserved_called, THEN preservedD(2)]
  preserved_saveCurrentModel[THEN preserved_called, THEN preservedD(2)]

lemma step_preserves:
  assumes "sync_inv s" "render_inv s"
  shows "sync_inv (step e s) \<and> render_inv (step e s)"
proof (cases e)
  case Render
  then show ?thesis using render_preserves[OF assms] by simp
next
  case (Edit m)
  then show ?thesis
    using assms preservedD(1,2)[OF preserved_setModel] by simp
next
  case (TimerFires h)
  then show ?thesis
    using assms preservedD(1,2)[OF preserved_fire] by simp
next
  case (Settle i r)
  show ?thesis
  proof (cases "i < length (suspended s)")
    case True
    show ?thesis
    proof (cases "settle (suspended s ! i) r
        (s\<lparr>suspended := take i (suspended s) @ drop (Suc i) (suspended s)\<rparr>)")
      case None
      with Settle True assms show ?thesis by simp
    next
      case (Some s')
      from settle_preserves[OF assms True Some] Settle True Some show ?thesis by simp
    qed
  next
    case False
    with Settle assms show ?thesis by simp
  qed
qed (use assms in \<open>simp_all add: called_sync called_render\<close>)

lemma reachable_inv: "reachable s \<Longrightarrow> sync_inv s \<and> render_inv s"
proof (induction rule: reachable.induct)
  case (reach_init lp lm m)
  show ?case by (rule init_inv)
next
  case (reach_step s e)
  then show ?case using step_preserves by blast
qed

lemma reachable_timers_tracked: "reachable s \<Longrightarrow> timers_tracked s"
  using reachable_inv inv_timers_tracked by blast

lemma reachable_run: "reachable s \<Longrightarrow> reachable (run_events es s)"
  unfolding run_events_def
  by (induction es arbitrary: s) (simp_all add: reachable.reach_step)

lemma reachable_samples: "reachable loading_A1" "reachable editing_A1"
  unfolding loading_A1_def editing_A1_def
  by (intro reachable_run reachable.reach_init)+

lemma reachable_rendered_when_subscribed:
  assumes "reachable s" "subscribed s"
  shows "rendered s \<noteq> None" "truthy_id (activeModelIdRef s)"
  using reachable_inv[OF assms(1)] assms(2)
  by (auto simp: render_inv_def split: option.splits)

lemma reachable_timer_facts:
  assumes "reachable s" "t \<in> set (timers s)"
  shows "timers s = [t]" "saveTimeoutRef s = Some (t_id t)" "t_id t \<noteq> 0" "t_delay t = 600"
    "t_snapshot t = store s" "truthy_id (activeModelIdRef s)" "\<not> isHydratingRef s" "subscribed s"
proof -
  have i: "sync_inv s" using reachable_inv[OF assms(1)] by simp
  from assms(2) have ne: "timers s \<noteq> []" by auto
  show "timers s = [t]"
    using i assms(2) by (cases "timers s") (auto simp: sync_inv_def)
  show "saveTimeoutRef s = Some (t_id t)" "t_id t \<noteq> 0" "t_delay t = 600" "t_snapshot t = store s"
    using i assms(2) by (auto simp: sync_inv_def timer_ok_def list_all_iff)
  show "truthy_id (activeModelIdRef s)" "\<not> isHydratingRef s" "subscribed s"
    using i ne by (auto simp: sync_inv_def)
qed

lemma qualifying_edit:
  assumes "reachable s" "subscribed s" "\<not> isHydratingRef s"
  shows "step (Edit m) s =
    s\<lparr>store := m, timers := [\<lparr>t_id = nextTimerId s, t_delay = 600, t_snapshot = m\<rparr>],
      nextTimerId := Suc (nextTimerId s), saveTimeoutRef := Some (nextTimerId s)\<rparr>"
  using setModel_inv_cases[of s m] reachable_inv[OF assms(1)]
    reachable_rendered_when_subscribed(2)[OF assms(1,2)] assms(2,3)
  by simp

lemma edit_burst:
  assumes "reachable s" "subscribed s" "\<not> isHydratingRef s" "ms \<noteq> []"
  shows "(\<exists>h. timers (run_events (map Edit ms) s) =
        [\<lparr>t_id = h, t_delay = 600, t_snapshot = last ms\<rparr>])
    \<and> requests (run_events (map Edit ms) s) = requests s
    \<and> store (run_events (map Edit ms) s) = last ms"
  using assms
proof (induction ms arbitrary: s)
  case Nil
  then show ?case by simp
next
  case (Cons m ms)
  let ?s1 = "step (Edit m) s"
  have e: "?s1 = s\<lparr>store := m, timers := [\<lparr>t_id = nextTimerId s, t_delay = 600, t_snapshot = m\<rparr>],
      nextTimerId := Suc (nextTimerId s), saveTimeoutRef := Some (nextTimerId s)\<rparr>"
    by (rule qualifying_edit[OF Cons.prems(1-3)])
  show ?case
  proof (cases "ms = []")
    case True
    then show ?thesis by (simp add: run_events_def e del: step.simps)
  next
    case False
    have r1: "reachable ?s1" by (rule reachable.reach_step[OF Cons.prems(1)])
    have "subscribed ?s1" "\<not> isHydratingRef ?s1" using Cons.prems(2,3) by (simp_all add: e del: step.simps)
    from Cons.IH[OF r1 this False] False show ?thesis
      by (simp add: run_events_def e del: step.simps)
  qed
qed

lemma timer_fires:
  assumes "reachable s" "t \<in> set (timers s)"
  shows "\<exists>modelId. activeModelIdRef s = Some modelId \<and> modelId \<noteq> []
    \<and> requests (step (TimerFires (t_id t)) s) = requests s @ [UpdateModel modelId (t_snapshot t)]
    \<and> timers (step (TimerFires (t_id t)) s) = []
    \<and> saveStatus (step (TimerFires (t_id t)) s) = Saving"
proof -
  note f = reachable_timer_facts[OF assms]
  from f(6) obtain modelId where m: "activeModelIdRef s = Some modelId" "modelId \<noteq> []"
    by (auto simp: truthy_id_def split: option.splits)
  have "fire (t_id t) s = saveModelNow (t_snapshot t) Return (s\<lparr>timers := []\<rparr>)"
    using f(1) by (simp add: fire_def clearTimeout_def)
  then show ?thesis using m by (simp add: saveModelNow_def)
qed

text \<open>
  Claim C4. In every state the provider can reach at most one timer is pending, and it
  waits 600 ms, carries the current content of the store and is the one the handle
  refers to. An edit the listener accepts (subscribed, not hydrating) leaves exactly one
  pending timer, a new one carrying that edit, and issues no request; so does a burst of
  such edits, whose timer carries the last edit. When a pending timer fires, exactly one
  model update is issued, for the active model and with the timer's snapshot.
\<close>

theorem debounce_single_timer:
  assumes "reachable s"
  shows "length (timers s) \<le> 1
    \<and> (\<forall>t \<in> set (timers s). t_delay t = 600 \<and> t_snapshot t = store s
          \<and> saveTimeoutRef s = Some (t_id t))
    \<and> (subscribed s \<and> \<not> isHydratingRef s \<longrightarrow>
          timers (step (Edit m) s) =
            [\<lparr>t_id = nextTimerId s, t_delay = 600, t_snapshot = m\<rparr>]
        \<and> requests (step (Edit m) s) = requests s)
    \<and> (subscribed s \<and> \<not> isHydratingRef s \<and> ms \<noteq> [] \<longrightarrow>
          (\<exists>h. timers (run_events (map Edit ms) s) =
              [\<lparr>t_id = h, t_delay = 600, t_snapshot = last ms\<rparr>])
        \<and> requests (run_events (map Edit ms) s) = requests s)
    \<and> (\<forall>t \<in> set (timers s). \<exists>modelId. activeModelIdRef s = Some modelId
          \<and> requests (step (TimerFires (t_id t)) s) =
              requests s @ [UpdateModel modelId (t_snapshot t)]
          \<and> timers (step (TimerFires (t_id t)) s) = [])"
proof (intro conjI ballI impI)
  show "length (timers s) \<le> 1"
    using reachable_inv[OF assms] by (simp add: sync_inv_def)
next
  fix t assume "t \<in> set (timers s)"
  from reachable_timer_facts[OF assms this]
  show "t_delay t = 600" "t_snapshot t = store s" "saveTimeoutRef s = Some (t_id t)"
    by simp_all
next
  assume a: "subscribed s \<and> \<not> isHydratingRef s"
  then have e: "step (Edit m) s =
    s\<lparr>store := m, timers := [\<lparr>t_id = nextTimerId s, t_delay = 600, t_snapshot = m\<rparr>],
      nextTimerId := Suc (nextTimerId s), saveTimeoutRef := Some (nextTimerId s)\<rparr>"
    using qualifying_edit[OF assms] by blast
  show "timers (step (Edit m) s) = [\<lparr>t_id = nextTimerId s, t_delay = 600, t_snapshot = m\<rparr>]"
    "requests (step (Edit m) s) = requests s"
    by (simp_all add: e del: step.simps)
next
  assume a: "subscribed s \<and> \<not> isHydratingRef s \<and> ms \<noteq> []"
  then have b: "subscribed s" "\<not> isHydratingRef s" "ms \<noteq> []" by simp_all
  from edit_burst[OF assms b]
  show "\<exists>h. timers (run_events (map Edit ms) s) =
      [\<lparr>t_id = h, t_delay = 600, t_snapshot = last ms\<rparr>]"
    "requests (run_events (map Edit ms) s) = requests s"
    by blast+
next
  fix t assume "t \<in> set (timers s)"
  from timer_fires[OF assms this]
  show "\<exists>modelId. activeModelIdRef s = Some modelId
      \<and> requests (step (TimerFires (t_id t)) s) =
          requests s @ [UpdateModel modelId (t_snapshot t)]
      \<and> timers (step (TimerFires (t_id t)) s) = []"
    by blast
qed

text \<open>
  Claim C3. When the fetch of the last load issued resolves, the hydration guard is up
  and no timer is pending; the store takes the fetched model, the save status is idle, no
  timer is scheduled, no request is issued, and the guard and the loading flag are cleared.
\<close>

theorem load_never_schedules_save:
  assumes "reachable s" "i < length (suspended s)"
    "suspended s ! i = PFetchModel (loadTokenRef s)"
  shows "isHydratingRef s \<and> timers s = []
    \<and> store (step (Settle i (Model data)) s) = model_or_empty data
    \<and> saveStatus (step (Settle i (Model data)) s) = Idle
    \<and> timers (step (Settle i (Model data)) s) = []
    \<and> saveTimeoutRef (step (Settle i (Model data)) s) = saveTimeoutRef s
    \<and> requests (step (Settle i (Model data)) s) = requests s
    \<and> \<not> isHydratingRef (step (Settle i (Model data)) s)
    \<and> \<not> isLoadingModel (step (Settle i (Model data)) s)"
proof -
  have inv: "sync_inv s" using reachable_inv[OF assms(1)] by simp
  from load_tokens_rest_load[OF assms(2,3)] have "loadTokenRef s \<in> set (load_tokens (suspended s))"
    by auto
  then have h: "isHydratingRef s" using inv by (simp add: sync_inv_def)
  then have t: "timers s = []" using inv by (auto simp: sync_inv_def)
  let ?s0 = "s\<lparr>suspended := take i (suspended s) @ drop (Suc i) (suspended s)\<rparr>"
  have e: "step (Settle i (Model data)) s = loadModel_settled (loadTokenRef ?s0) (Inr data) ?s0"
    using assms(2,3) by (simp add: settle_def)
  have h0: "isHydratingRef ?s0" using h by simp
  show ?thesis
    unfolding e loadModel_settled_current[OF h0] using h t by simp
qed

lemma flush_then_switch:
  assumes "reachable s" "timers s = [t]"
  shows "\<exists>modelId. activeModelIdRef s = Some modelId
    \<and> requests (saveCurrentModel k s) = requests s @ [UpdateModel modelId (t_snapshot t)]
    \<and> suspended (saveCurrentModel k s) = suspended s @ [PUpdateModel k]
    \<and> timers (saveCurrentModel k s) = []
    \<and> saveStatus (saveCurrentModel k s) = Saving
    \<and> activeProjectId (saveCurrentModel k s) = activeProjectId s
    \<and> activeModelId (saveCurrentModel k s) = activeModelId s"
proof -
  have mem: "t \<in> set (timers s)" using assms(2) by simp
  note f = reachable_timer_facts[OF assms(1) mem]
  have inv: "sync_inv s" using reachable_inv[OF assms(1)] by simp
  from f(6) obtain modelId where m: "activeModelIdRef s = Some modelId" "modelId \<noteq> []"
    by (auto simp: truthy_id_def split: option.splits)
  have "saveCurrentModel k s =
      saveModelNow (store s) k (s\<lparr>timers := [], saveTimeoutRef := None\<rparr>)"
    using saveCurrentModel_inv_cases[OF inv, of k] f(2,3,6)
    by (simp add: truthy_handle_def Let_def)
  then show ?thesis using m f(5) by (simp add: saveModelNow_def)
qed

text \<open>
  Claim C1, amended. While a debounced save is pending: \<open>selectProject\<close> and
  \<open>selectModel\<close> with a new id cancel the timer and issue the model update with the
  pending snapshot, and leave the active ids as they are while that write is awaited; the
  ids change when the write has settled, whether it succeeded or not. The two deletes issue
  their request without a flush and leave the timer pending.
\<close>

theorem selection_change_flushes_first:
  assumes "reachable s" "timers s = [t]"
  shows "(projectId \<noteq> activeProjectIdRef s \<longrightarrow>
        (\<exists>modelId. activeModelIdRef s = Some modelId
          \<and> requests (step (Call_selectProject projectId) s) =
              requests s @ [UpdateModel modelId (t_snapshot t)]
          \<and> suspended (step (Call_selectProject projectId) s) =
              suspended s @ [PUpdateModel (SelectProject projectId)]
          \<and> timers (step (Call_selectProject projectId) s) = []
          \<and> activeProjectId (step (Call_selectProject projectId) s) = activeProjectId s
          \<and> activeModelId (step (Call_selectProject projectId) s) = activeModelId s))
    \<and> (modelId' \<noteq> activeModelIdRef s \<longrightarrow>
        (\<exists>modelId. activeModelIdRef s = Some modelId
          \<and> requests (step (Call_selectModel modelId') s) =
              requests s @ [UpdateModel modelId (t_snapshot t)]
          \<and> suspended (step (Call_selectModel modelId') s) =
              suspended s @ [PUpdateModel (SelectModel modelId')]
          \<and> timers (step (Call_selectModel modelId') s) = []
          \<and> activeProjectId (step (Call_selectModel modelId') s) = activeProjectId s
          \<and> activeModelId (step (Call_selectModel modelId') s) = activeModelId s))
    \<and> activeProjectId (saveModelNow_settled r (SelectProject projectId) s') = projectId
    \<and> activeModelId (saveModelNow_settled r (SelectProject projectId) s') = None
    \<and> models (saveModelNow_settled r (SelectProject projectId) s') = []
    \<and> activeModelId (saveModelNow_settled r (SelectModel modelId') s') = modelId'
    \<and> requests (step (Call_deleteProject victim) s) = requests s @ [DeleteProject victim]
    \<and> timers (step (Call_deleteProject victim) s) = [t]
    \<and> requests (step (Call_deleteModel victim) s) = requests s @ [DeleteModel victim]
    \<and> timers (step (Call_deleteModel victim) s) = [t]"
proof -
  have mem: "t \<in> set (timers s)" using assms(2) by simp
  have r: "rendered s \<noteq> None"
    using reachable_rendered_when_subscribed(1)[OF assms(1)]
      reachable_timer_facts(8)[OF assms(1) mem] by simp
  have c: "called f s = f s" for f using r by (auto simp: called_def)
  note fl = flush_then_switch[OF assms]
  have a: "projectId \<noteq> activeProjectIdRef s \<Longrightarrow>
      step (Call_selectProject projectId) s = saveCurrentModel (SelectProject projectId) s"
    by (simp add: c selectProject_def)
  have b: "modelId' \<noteq> activeModelIdRef s \<Longrightarrow>
      step (Call_selectModel modelId') s = saveCurrentModel (SelectModel modelId') s"
    by (simp add: c selectModel_def)
  have d: "activeProjectId (saveModelNow_settled r (SelectProject projectId) s') = projectId"
    "activeModelId (saveModelNow_settled r (SelectProject projectId) s') = None"
    "models (saveModelNow_settled r (SelectProject projectId) s') = []"
    "activeModelId (saveModelNow_settled r (SelectModel modelId') s') = modelId'"
    by (simp_all add: saveModelNow_settled_def setModels_def split: sum.splits)
  have e: "requests (step (Call_deleteProject victim) s) = requests s @ [DeleteProject victim]"
    "timers (step (Call_deleteProject victim) s) = [t]"
    "requests (step (Call_deleteModel victim) s) = requests s @ [DeleteModel victim]"
    "timers (step (Call_deleteModel victim) s) = [t]"
    using assms(2) by (simp_all add: c handleDeleteProject_def handleDeleteModel_def Let_def)
  have p1: "projectId \<noteq> activeProjectIdRef s \<longrightarrow>
        (\<exists>modelId. activeModelIdRef s = Some modelId
          \<and> requests (step (Call_selectProject projectId) s) =
              requests s @ [UpdateModel modelId (t_snapshot t)]
          \<and> suspended (step (Call_selectProject projectId) s) =
              suspended s @ [PUpdateModel (SelectProject projectId)]
          \<and> timers (step (Call_selectProject projectId) s) = []
          \<and> activeProjectId (step (Call_selectProject projectId) s) = activeProjectId s
          \<and> activeModelId (step (Call_selectProject projectId) s) = activeModelId s)"
    using a fl[of "SelectProject projectId"] by (auto simp del: step.simps)
  have p2: "modelId' \<noteq> activeModelIdRef s \<longrightarrow>
        (\<exists>modelId. activeModelIdRef s = Some modelId
          \<and> requests (step (Call_selectModel modelId') s) =
              requests s @ [UpdateModel modelId (t_snapshot t)]
          \<and> suspended (step (Call_selectModel modelId') s) =
              suspended s @ [PUpdateModel (SelectModel modelId')]
          \<and> timers (step (Call_selectModel modelId') s) = []
          \<and> activeProjectId (step (Call_selectModel modelId') s) = activeProjectId s
          \<and> activeModelId (step (Call_selectModel modelId') s) = activeModelId s)"
    using b fl[of "SelectModel modelId'"] by (auto simp del: step.simps)
  show ?thesis
    using p1 p2 d e by blast
qed

text \<open>
  Claim C1, as stated, fails for the deletes. With an edit of model a1 waiting in the
  debounce timer, deleting a1 or its project issues the delete at once, with no model
  update before it; after the delete has settled and the provider has rendered, the timer
  is gone and the edit was never written.
\<close>

theorem delete_without_flush_counterexample:
  "timers editing_A1 = [\<lparr>t_id = 1, t_delay = 600, t_snapshot = edited_model\<rparr>]
   \<and> activeModelId editing_A1 = Some ''a1''
   \<and> requests editing_A1 = [FetchProjects, FetchModels ''A'', FetchModel ''a1'']
   \<and> requests (step (Call_deleteModel ''a1'') editing_A1) =
       [FetchProjects, FetchModels ''A'', FetchModel ''a1'', DeleteModel ''a1'']
   \<and> requests (step (Call_deleteProject ''A'') editing_A1) =
       [FetchProjects, FetchModels ''A'', FetchModel ''a1'', DeleteProject ''A'']
   \<and> requests (run_events [Call_deleteModel ''a1'', Settle 0 Deleted, Render, Render] editing_A1) =
       [FetchProjects, FetchModels ''A'', FetchModel ''a1'', DeleteModel ''a1'']
   \<and> timers (run_events [Call_deleteModel ''a1'', Settle 0 Deleted, Render, Render] editing_A1) = []"
  by code_simp

theorem selection_change_flushes_first_witness:
  "timers editing_A1 = [\<lparr>t_id = 1, t_delay = 600, t_snapshot = edited_model\<rparr>]
   \<and> requests (step (Call_selectProject (Some ''B'')) editing_A1) =
       requests editing_A1 @ [UpdateModel ''a1'' edited_model]
   \<and> timers (step (Call_selectProject (Some ''B'')) editing_A1) = []
   \<and> activeProjectId (step (Call_selectProject (Some ''B'')) editing_A1) = Some ''A''
   \<and> requests (step (Call_selectModel None) editing_A1) =
       requests editing_A1 @ [UpdateModel ''a1'' edited_model]
   \<and> activeModelId (step (Call_selectModel None) editing_A1) = Some ''a1''
   \<and> timers (step (Call_deleteModel ''a1'') editing_A1) =
       [\<lparr>t_id = 1, t_delay = 600, t_snapshot = edited_model\<rparr>]"
proof -
  have t: "timers editing_A1 = [\<lparr>t_id = 1, t_delay = 600, t_snapshot = edited_model\<rparr>]"
    by code_simp
  have f: "Some ''B'' \<noteq> activeProjectIdRef editing_A1" "None \<noteq> activeModelIdRef editing_A1"
    "activeModelIdRef editing_A1 = Some ''a1''" "activeProjectId editing_A1 = Some ''A''"
    "activeModelId editing_A1 = Some ''a1''"
    by code_simp+
  show ?thesis
    using selection_change_flushes_first[OF reachable_samples(2) t,
        of "Some ''B''" None _ _ "''a1''"] f t
    by (simp del: step.simps)
qed

theorem debounce_single_timer_witness:
  "subscribed editing_A1 \<and> \<not> isHydratingRef editing_A1
   \<and> length (timers editing_A1) \<le> 1
   \<and> (\<exists>h. timers (run_events (map Edit [createEmptyModel, edited_model]) editing_A1) =
        [\<lparr>t_id = h, t_delay = 600, t_snapshot = edited_model\<rparr>])
   \<and> requests (run_events (map Edit [createEmptyModel, edited_model]) editing_A1) =
        requests editing_A1
   \<and> requests (step (TimerFires 1) editing_A1) =
        requests editing_A1 @ [UpdateModel ''a1'' edited_model]
   \<and> timers (step (TimerFires 1) editing_A1) = []"
proof -
  have a: "subscribed editing_A1" "\<not> isHydratingRef editing_A1"
    "activeModelIdRef editing_A1 = Some ''a1''"
    by code_simp+
  have t: "timers editing_A1 = [\<lparr>t_id = 1, t_delay = 600, t_snapshot = edited_model\<rparr>]"
    by code_simp
  show ?thesis
    using debounce_single_timer[OF reachable_samples(2), of edited_model
        "[createEmptyModel, edited_model]"] a t
    by (simp del: step.simps)
qed

theorem load_never_schedules_save_witness:
  "suspended loading_A1 = [PFetchModel 1] \<and> loadTokenRef loading_A1 = 1
   \<and> store (step (Settle 0 (Model model_A1)) loading_A1) = createEmptyModel
   \<and> saveStatus (step (Settle 0 (Model model_A1)) loading_A1) = Idle
   \<and> timers (step (Settle 0 (Model model_A1)) loading_A1) = []
   \<and> requests (step (Settle 0 (Model model_A1)) loading_A1) = requests loading_A1"
proof -
  have a: "suspended loading_A1 = [PFetchModel 1]" "loadTokenRef loading_A1 = 1"
    by code_simp+
  have b: "0 < length (suspended loading_A1)"
    "suspended loading_A1 ! 0 = PFetchModel (loadTokenRef loading_A1)"
    by (simp_all add: a)
  have c: "model_or_empty model_A1 = createEmptyModel"
    by (simp add: model_or_empty_def model_A1_def)
  show ?thesis
    using load_never_schedules_save[OF reachable_samples(1) b, of model_A1] a c
    by (simp del: step.simps)
qed

theorem load_token_supersession_witness:
  "store (loadModel_settled 3 (Inr model_B1)
      (loadModel_settled 2 (Inr model_A1) (loadModel ''b1'' (loadModel ''a1'' editing_A1)))) =
     edited_model
   \<and> store (loadModel_settled 2 (Inr model_A1)
      (loadModel_settled 3 (Inr model_B1) (loadModel ''b1'' (loadModel ''a1'' editing_A1)))) =
     edited_model"
proof -
  have a: "loadTokenRef (loadModel ''a1'' editing_A1) = 2"
    "loadTokenRef (loadModel ''b1'' (loadModel ''a1'' editing_A1)) = 3"
    by code_simp+
  have b: "model_or_empty model_B1 = edited_model"
    by (simp add: model_or_empty_def model_B1_def)
  show ?thesis
    using load_token_supersession[of "''a1''" editing_A1 "''b1''" model_A1 model_B1] a b
    by (simp add: Let_def)
qed

theorem deleteProject_selection_witness:
  "activeProjectIdRef editing_A1 = Some ''A''
   \<and> activeProjectId (handleDeleteProject_settled ''A'' (Inr ()) editing_A1) = None
   \<and> activeModelId (handleDeleteProject_settled ''A'' (Inr ()) editing_A1) = None
   \<and> models (handleDeleteProject_settled ''A'' (Inr ()) editing_A1) = []
   \<and> store (handleDeleteProject_settled ''A'' (Inr ()) editing_A1) = createEmptyModel
   \<and> map p_id (projects (handleDeleteProject_settled ''A'' (Inr ()) editing_A1)) = [''B'']
   \<and> activeProjectId (handleDeleteProject_settled ''B'' (Inr ()) editing_A1) = Some ''A''
   \<and> activeModelId (handleDeleteProject_settled ''B'' (Inr ()) editing_A1) = Some ''a1''
   \<and> store (handleDeleteProject_settled ''B'' (Inr ()) editing_A1) = edited_model
   \<and> map p_id (projects (handleDeleteProject_settled ''B'' (Inr ()) editing_A1)) = [''A'']"
proof -
  have a: "activeProjectIdRef editing_A1 = Some ''A''"
    "activeProjectIdRef editing_A1 \<noteq> Some ''B''"
    "activeProjectId editing_A1 = Some ''A''" "activeModelId editing_A1 = Some ''a1''"
    "store editing_A1 = edited_model"
    "map p_id (filter (\<lambda>item. p_id item \<noteq> ''A'') (projects editing_A1)) = [''B'']"
    "map p_id (filter (\<lambda>item. p_id item \<noteq> ''B'') (projects editing_A1)) = [''A'']"
    by code_simp+
  show ?thesis
    using deleteProject_selection[of editing_A1 "''A''"]
      deleteProject_selection[of editing_A1 "''B''"] a
    by simp
qed

text \<open>
  Claim C5, as stated, fails. The projects effect runs on a change of the listing while
  a refresh is in flight: the listing holds B, no project is active, and the effect
  returns at its loading guard without making B active.
\<close>

theorem reconcile_while_loading_counterexample:
  "map p_id (projects deleted_during_refresh) = [''B'']
   \<and> activeProjectId deleted_during_refresh = None
   \<and> changed (rendered deleted_during_refresh) (closure_of deleted_during_refresh) r_projectsVer
   \<and> activeProjectId (reconcile_projects (closure_of deleted_during_refresh)
        deleted_during_refresh) = None
   \<and> activeProjectId (step Render deleted_during_refresh) = None
   \<and> map p_id (projects (step Render deleted_during_refresh)) = [''B'']"
  by code_simp

theorem reconciliation_repairs_selection_witness:
  "activeProjectId (reconcile_projects (closure_of (init (Some ''A'') (Some ''a1'') edited_model))
      (init (Some ''A'') (Some ''a1'') edited_model)) = None
   \<and> store (reconcile_projects (closure_of (init (Some ''A'') (Some ''a1'') edited_model))
      (init (Some ''A'') (Some ''a1'') edited_model)) = createEmptyModel
   \<and> activeProjectId (reconcile_projects (closure_of listed_projects) listed_projects) = Some ''A''
   \<and> activeModelId (reconcile_models (closure_of listed_models) listed_models) = Some ''a1''"
proof -
  let ?i = "init (Some ''A'') (Some ''a1'') edited_model"
  have a: "\<not> r_isLoadingProjects (closure_of ?i)" "activeProjectIdRef ?i = activeProjectId ?i"
    "r_projects (closure_of ?i) = []"
    by (simp_all add: init_def closure_of_def)
  have b: "\<not> r_isLoadingProjects (closure_of listed_projects)"
    "activeProjectIdRef listed_projects = activeProjectId listed_projects"
    "r_projects (closure_of listed_projects) \<noteq> []"
    "activeProjectId listed_projects = None"
    "p_id (hd (r_projects (closure_of listed_projects))) = ''A''"
    by code_simp+
  have c: "\<not> r_isLoadingModels (closure_of listed_models)"
    "truthy_id (r_activeProjectId (closure_of listed_models))"
    "activeModelIdRef listed_models = activeModelId listed_models"
    "r_models (closure_of listed_models) \<noteq> []"
    "activeModelId listed_models = None"
    "m_id (hd (r_models (closure_of listed_models))) = ''a1''"
    by code_simp+
  show ?thesis
    using reconciliation_repairs_selection[of "closure_of ?i" ?i]
      reconciliation_repairs_selection[of "closure_of listed_projects" listed_projects]
      reconciliation_repairs_selection[of "closure_of listed_models" listed_models]
      a b c
    by simp
qed

end
